theory Spec2Isabelle
  imports Complex_Main
begin

section \<open>Online variational Bayes for the author-topic model (onlineatvb.py)\<close>

text \<open>
  The development embeds \<^verbatim>\<open>gensim/models/onlineatvb.py\<close>: the class
  \<^verbatim>\<open>OnlineAtVb\<close> with its constructor, the learning rate \<^verbatim>\<open>rho\<close>, the method
  \<^verbatim>\<open>inference\<close> and the query \<^verbatim>\<open>get_author_topics\<close>.

  Numbers: numpy's float64 values are modelled as \<^typ>\<open>real\<close>, so rounding, overflow
  and the non-finite values \<^verbatim>\<open>inf\<close>/\<^verbatim>\<open>nan\<close> are outside the model. Word, author, topic
  and document ids are \<^typ>\<open>nat\<close> (they index numpy arrays from 0). A numpy matrix is a
  function from row and column to \<^typ>\<open>real\<close>, with its shape kept beside it in the model's
  parameters; an access outside the shape is an \<^verbatim>\<open>IndexError\<close> of the source and is a
  branch of the model where the source can reach it.
\<close>

subsection \<open>Errors\<close>

datatype py_error =
    ValueError string
  | TypeError
  | KeyError
  | IndexError
  | ZeroDivisionError

subsection \<open>The learning rate\<close>

text \<open>
  \<^verbatim>\<open>def rho(self, t): return pow(self.offset + t, -self.decay)\<close>

  The step counter \<^verbatim>\<open>t\<close> starts at 0 and is incremented by one per document, so it is
  a \<^typ>\<open>nat\<close>. For a positive base Python's \<^verbatim>\<open>pow\<close> on floats is the real power
  \<^term>\<open>(powr)\<close>. For \<open>offset + t \<le> 0\<close> Python raises (base 0) or leaves the reals
  (negative base), and the model does not describe the source there.
\<close>

definition rho :: "real \<Rightarrow> real \<Rightarrow> nat \<Rightarrow> real" where
  "rho offset decay t = (offset + real t) powr (- decay)"

subsection \<open>Data\<close>

text \<open>
  A document is a bag of words: a list of (word id, count) pairs. A Python \<^verbatim>\<open>dict\<close> that
  the source iterates over (\<^verbatim>\<open>items()\<close>, \<^verbatim>\<open>len\<close>) is the list of its items in iteration
  order, with distinct keys; \<^verbatim>\<open>d[k]\<close> is \<^const>\<open>map_of\<close>, raising \<^verbatim>\<open>KeyError\<close> on
  \<^const>\<open>None\<close>.
\<close>

type_synonym matrix = "nat \<Rightarrow> nat \<Rightarrow> real"
type_synonym document = "(nat \<times> real) list"
type_synonym ('k, 'v) dict = "('k \<times> 'v) list"

text \<open>
  \<^verbatim>\<open>dirichlet_expectation\<close> is imported from \<^verbatim>\<open>gensim.models.ldamodel\<close> and is not part
  of the source: it is a parameter of the model, applied to the shape and the matrix.
\<close>

type_synonym dirichlet = "nat \<Rightarrow> nat \<Rightarrow> matrix \<Rightarrow> matrix"

text \<open>
  The attributes of an \<^verbatim>\<open>OnlineAtVb\<close> object. \<^verbatim>\<open>alpha\<close> and \<^verbatim>\<open>eta\<close> are the vectors
  (one-dimensional numpy arrays) of lines 116 and 117.
\<close>

record OnlineAtVb =
  num_terms :: nat
  num_topics :: nat
  num_authors :: nat
  num_docs :: nat
  author2doc :: "(nat, nat list) dict"
  doc2author :: "(nat, nat list) dict"
  alpha :: "real list"
  eta :: "real list"
  corpus :: "document list"
  iterations :: nat
  passes :: nat
  threshold :: real
  minimum_probability :: real
  decay :: real
  offset :: real
  eval_every :: int
  self_var_gamma :: matrix
  self_var_lambda :: matrix

text \<open>
  The local variables of \<^verbatim>\<open>inference\<close> that live across documents and iterations.
  \<^verbatim>\<open>var_mu\<close> is a dict keyed by (word, author); it is read only at keys written before,
  so it is a total function here. \<open>t_step\<close> is the source's counter \<^verbatim>\<open>t\<close>.
\<close>

record vstate =
  var_gamma :: matrix
  var_lambda :: matrix
  tilde_gamma :: matrix
  tilde_lambda :: matrix
  var_phi :: matrix
  var_mu :: "nat \<times> nat \<Rightarrow> real"
  Elogtheta :: matrix
  Elogbeta :: matrix
  expElogbeta :: matrix
  t_step :: nat
  converged :: nat

subsection \<open>The local variational solver (lines 185-252)\<close>

text \<open>Lines 189-192: \<^verbatim>\<open>var_mu[(v, a)] = 1 / len(authors_d)\<close> for the document's words and authors.\<close>

definition init_mu :: "nat list \<Rightarrow> nat list \<Rightarrow> nat \<times> nat \<Rightarrow> real" where
  "init_mu ids authors_d =
     fold (\<lambda>v mu. fold (\<lambda>a mu'. mu'((v, a) := 1 / real (length authors_d))) authors_d mu)
       ids (\<lambda>_. 0)"

text \<open>
  Lines 201-214, for one word \<open>v\<close>: the cell \<^verbatim>\<open>var_phi[v, k]\<close> for every topic, then the row
  divided by its sum.
\<close>

definition phi_unnorm :: "nat list \<Rightarrow> vstate \<Rightarrow> nat \<Rightarrow> nat \<Rightarrow> real" where
  "phi_unnorm authors_d s v k =
     exp (\<Sum>a\<leftarrow>authors_d. var_mu s (v, a) * Elogtheta s a k) * expElogbeta s k v"

definition update_phi_word :: "OnlineAtVb \<Rightarrow> nat list \<Rightarrow> nat \<Rightarrow> vstate \<Rightarrow> vstate" where
  "update_phi_word m authors_d v s =
     (let phi1 = (var_phi s)(v := (\<lambda>k. if k < num_topics m then phi_unnorm authors_d s v k
                                        else var_phi s v k));
          total = (\<Sum>k\<leftarrow>[0..<num_topics m]. phi1 v k)
      in s\<lparr>var_phi := phi1(v := (\<lambda>k. if k < num_topics m then phi1 v k / total
                                      else phi1 v k))\<rparr>)"

definition update_phi :: "OnlineAtVb \<Rightarrow> nat list \<Rightarrow> nat list \<Rightarrow> vstate \<Rightarrow> vstate" where
  "update_phi m ids authors_d s = fold (update_phi_word m authors_d) ids s"

text \<open>
  Lines 217-236, for one word \<open>v\<close>: the unnormalised weight of every author, their sum
  \<^verbatim>\<open>mu_sum\<close>, then every entry multiplied by \<^verbatim>\<open>1.0 / mu_sum\<close>, once per list position.
\<close>

definition mu_unnorm :: "OnlineAtVb \<Rightarrow> vstate \<Rightarrow> nat \<Rightarrow> nat \<Rightarrow> real" where
  "mu_unnorm m s v a = exp (\<Sum>k\<leftarrow>[0..<num_topics m]. var_phi s v k * Elogtheta s a k)"

definition update_mu_word :: "OnlineAtVb \<Rightarrow> nat list \<Rightarrow> nat \<Rightarrow> vstate \<Rightarrow> vstate" where
  "update_mu_word m authors_d v s =
     (let mu1 = fold (\<lambda>a mu. mu((v, a) := mu_unnorm m s v a)) authors_d (var_mu s);
          mu_sum = (\<Sum>a\<leftarrow>authors_d. mu_unnorm m s v a);
          mu_norm_const = 1 / mu_sum
      in s\<lparr>var_mu := fold (\<lambda>a mu. mu((v, a) := mu (v, a) * mu_norm_const)) authors_d mu1\<rparr>)"

definition update_mu :: "OnlineAtVb \<Rightarrow> nat list \<Rightarrow> nat list \<Rightarrow> vstate \<Rightarrow> vstate" where
  "update_mu m ids authors_d s = fold (update_mu_word m authors_d) ids s"

text \<open>
  Lines 239-245. \<^verbatim>\<open>len(self.author2doc[a])\<close> raises \<^verbatim>\<open>KeyError\<close> for an author without an
  entry; that branch is taken in \<open>gamma_errors\<close> below before the update runs.
\<close>

definition author_num_docs :: "OnlineAtVb \<Rightarrow> nat \<Rightarrow> nat" where
  "author_num_docs m a = (case map_of (author2doc m) a of Some ds \<Rightarrow> length ds | None \<Rightarrow> 0)"

text \<open>
  Line 245, \<^verbatim>\<open>tilde_gamma[a, k] += self.alpha\<close>, adds the whole vector \<^verbatim>\<open>self.alpha\<close> to the
  number in the cell and assigns the resulting vector to the cell; line 252 assigns the
  vector \<^verbatim>\<open>self.eta + ...\<close> to the cell \<^verbatim>\<open>var_lambda[k, v]\<close>. numpy stores an array in a
  single cell only if the array has exactly one element, and raises \<^verbatim>\<open>ValueError\<close>
  (\<^verbatim>\<open>setting an array element with a sequence.\<close>) for any other array. \<open>store_in_cell\<close> is
  that assignment; \<open>cell_of\<close> is the number it stores. The raise is a branch of
  \<open>gamma_errors\<close> and \<open>round_errors\<close> below, taken before the update runs.
\<close>

definition store_in_cell :: "real list \<Rightarrow> py_error + real" where
  "store_in_cell xs =
     (case xs of
        [x] \<Rightarrow> Inr x
      | _ \<Rightarrow> Inl (ValueError ''setting an array element with a sequence.''))"

definition cell_of :: "real list \<Rightarrow> real" where
  "cell_of xs = (case store_in_cell xs of Inr x \<Rightarrow> x | Inl e \<Rightarrow> 0)"

definition gamma_cell :: "OnlineAtVb \<Rightarrow> document \<Rightarrow> vstate \<Rightarrow> nat \<Rightarrow> nat \<Rightarrow> real" where
  "gamma_cell m doc s a k =
     cell_of (map (\<lambda>alpha_i.
        (\<Sum>(v, cnt)\<leftarrow>doc. cnt * var_mu s (v, a) * var_phi s v k) * real (author_num_docs m a)
          + alpha_i) (alpha m))"

definition update_gamma :: "OnlineAtVb \<Rightarrow> document \<Rightarrow> nat list \<Rightarrow> vstate \<Rightarrow> vstate" where
  "update_gamma m doc authors_d s =
     fold (\<lambda>a s'. s'\<lparr>tilde_gamma := (tilde_gamma s')(a := (\<lambda>k. if k < num_topics m
                        then gamma_cell m doc s' a k else tilde_gamma s' a k))\<rparr>) authors_d s"

text \<open>
  Lines 249-252: \<^verbatim>\<open>cnt = dict(doc).get(v, 0)\<close> (the last pair of a word wins in \<^verbatim>\<open>dict\<close>),
  and the cell written is \<^verbatim>\<open>var_lambda[k, v]\<close>.
\<close>

definition doc_count :: "document \<Rightarrow> nat \<Rightarrow> real" where
  "doc_count doc v = (case map_of (rev doc) v of Some cnt \<Rightarrow> cnt | None \<Rightarrow> 0)"

definition lambda_cell :: "OnlineAtVb \<Rightarrow> document \<Rightarrow> vstate \<Rightarrow> nat \<Rightarrow> nat \<Rightarrow> real" where
  "lambda_cell m doc s k v =
     cell_of (map (\<lambda>eta_i. eta_i + real (num_docs m) * doc_count doc v * var_phi s v k) (eta m))"

definition update_lambda :: "OnlineAtVb \<Rightarrow> document \<Rightarrow> vstate \<Rightarrow> vstate" where
  "update_lambda m doc s =
     fold (\<lambda>k s'. fold (\<lambda>v s''. s''\<lparr>var_lambda := (var_lambda s'')(k := (var_lambda s'' k)
                       (v := lambda_cell m doc s'' k v))\<rparr>)
                     (map fst doc) s')
       [0..<num_topics m] s"

text \<open>One round of the loop over \<^verbatim>\<open>iteration\<close>, lines 200-252.\<close>

definition iteration_body :: "OnlineAtVb \<Rightarrow> document \<Rightarrow> nat list \<Rightarrow> vstate \<Rightarrow> vstate" where
  "iteration_body m doc authors_d s =
     update_lambda m doc
       (update_gamma m doc authors_d
         (update_mu m (map fst doc) authors_d
           (update_phi m (map fst doc) authors_d s)))"

text \<open>
  Lines 257-265. \<^verbatim>\<open>numpy.mean\<close> of an empty matrix is \<^verbatim>\<open>nan\<close>, and every comparison with
  \<^verbatim>\<open>nan\<close> is false: \<^const>\<open>None\<close> here.
\<close>

definition meanchange :: "nat \<Rightarrow> nat \<Rightarrow> matrix \<Rightarrow> matrix \<Rightarrow> real option" where
  "meanchange rows cols x y =
     (if rows * cols = 0 then None
      else Some ((\<Sum>i\<leftarrow>[0..<rows]. \<Sum>j\<leftarrow>[0..<cols]. \<bar>x i j - y i j\<bar>) / real (rows * cols)))"

definition has_converged :: "OnlineAtVb \<Rightarrow> matrix \<Rightarrow> matrix \<Rightarrow> vstate \<Rightarrow> bool" where
  "has_converged m lastgamma lastlambda s =
     (case meanchange (num_authors m) (num_topics m) (tilde_gamma s) lastgamma of
        None \<Rightarrow> False
      | Some meanchange_gamma \<Rightarrow>
          (case meanchange (num_topics m) (num_terms m) (tilde_lambda s) lastlambda of
             None \<Rightarrow> False
           | Some meanchange_lambda \<Rightarrow>
               meanchange_gamma < threshold m \<and> meanchange_lambda < threshold m))"

text \<open>
  The loop \<^verbatim>\<open>for iteration in xrange(self.iterations)\<close> with its \<^verbatim>\<open>break\<close>: \<open>iteration\<close>
  is the index of the round, the next argument the number of rounds left.
\<close>

fun iterate :: "OnlineAtVb \<Rightarrow> document \<Rightarrow> nat list \<Rightarrow> nat \<Rightarrow> nat \<Rightarrow> vstate \<Rightarrow> vstate" where
  "iterate m doc authors_d iteration 0 s = s"
| "iterate m doc authors_d iteration (Suc n) s =
     (let lastgamma = tilde_gamma s;
          lastlambda = tilde_lambda s;
          s' = iteration_body m doc authors_d s
      in if iteration > 0 \<and> has_converged m lastgamma lastlambda s'
         then s'\<lparr>converged := converged s' + 1\<rparr>
         else iterate m doc authors_d (Suc iteration) n s')"

subsection \<open>The per-document step (lines 180-286)\<close>

text \<open>
  The exceptions of one pass of the loop body, in the order in which the source reaches
  them. The locals are written back to the object only when \<^verbatim>\<open>inference\<close> returns, so
  an exception leaves nothing behind and the model decides it before running the body.
  The conditions do not depend on the values computed, so the first round decides for
  all rounds.

  Lines 239-245, author by author, at the first topic: \<^verbatim>\<open>tilde_gamma[a, k] = 0.0\<close>
  (\<^verbatim>\<open>IndexError\<close>), \<^verbatim>\<open>len(self.author2doc[a])\<close> (\<^verbatim>\<open>KeyError\<close>), \<^verbatim>\<open>+= self.alpha\<close>
  (\<^verbatim>\<open>ValueError\<close> unless the vector has one element).
\<close>

fun gamma_errors :: "OnlineAtVb \<Rightarrow> nat list \<Rightarrow> py_error option" where
  "gamma_errors m [] = None"
| "gamma_errors m (a # authors) =
     (if num_authors m \<le> a then Some IndexError
      else if map_of (author2doc m) a = None then Some KeyError
      else case store_in_cell (alpha m) of
             Inl e \<Rightarrow> Some e
           | Inr x \<Rightarrow> gamma_errors m authors)"

text \<open>
  One round, lines 200-252:
  \<^item> lines 206-214: \<^verbatim>\<open>Elogtheta[a, k]\<close>, \<^verbatim>\<open>expElogbeta[k, v]\<close> and \<^verbatim>\<open>var_phi[v, :]\<close>;
  \<^item> line 234: \<^verbatim>\<open>1.0 / mu_sum\<close> with no author, where \<^verbatim>\<open>mu_sum\<close> is still the Python
    float \<^verbatim>\<open>0.0\<close>;
  \<^item> lines 239-245: \<open>gamma_errors\<close>, if there is a topic;
  \<^item> line 252: the vector \<^verbatim>\<open>self.eta + ...\<close> assigned to the cell \<^verbatim>\<open>var_lambda[k, v]\<close>, if
    there is a topic and a word.
\<close>

definition round_errors :: "OnlineAtVb \<Rightarrow> document \<Rightarrow> nat list \<Rightarrow> py_error option" where
  "round_errors m doc authors_d =
     (let ids = map fst doc in
      if (\<exists>v\<in>set ids. num_terms m \<le> v) \<or>
         (0 < num_topics m \<and> ids \<noteq> [] \<and> (\<exists>a\<in>set authors_d. num_authors m \<le> a))
        then Some IndexError
      else if ids \<noteq> [] \<and> authors_d = [] then Some ZeroDivisionError
      else if num_topics m = 0 then None
      else case gamma_errors m authors_d of
             Some e \<Rightarrow> Some e
           | None \<Rightarrow>
               if ids = [] then None
               else (case store_in_cell (eta m) of Inl e \<Rightarrow> Some e | Inr x \<Rightarrow> None))"

text \<open>
  The whole step: line 183, \<^verbatim>\<open>self.doc2author[d]\<close>; the rounds, if any; line 281,
  \<^verbatim>\<open>var_lambda[:, ids]\<close>, where \<^verbatim>\<open>ids = numpy.array([...])\<close> of a document without words
  is an empty array of floats, which numpy refuses as an index (\<^verbatim>\<open>IndexError\<close>), as it
  refuses a word id outside the matrix.
\<close>

definition doc_errors :: "OnlineAtVb \<Rightarrow> nat \<Rightarrow> document \<Rightarrow> py_error option" where
  "doc_errors m d doc =
     (case map_of (doc2author m) d of
        None \<Rightarrow> Some KeyError
      | Some authors_d \<Rightarrow>
          (case (if iterations m = 0 then None else round_errors m doc authors_d) of
             Some e \<Rightarrow> Some e
           | None \<Rightarrow>
               if doc = [] \<or> (\<exists>v\<in>set (map fst doc). num_terms m \<le> v) then Some IndexError
               else None))"

text \<open>
  Lines 276-286: the blend of the local values into the global matrices. The right-hand
  side of \<^verbatim>\<open>var_lambda[:, ids] = ...\<close> is computed from the old matrix before any column
  is written, so a repeated id changes nothing.
\<close>

definition blend :: "OnlineAtVb \<Rightarrow> dirichlet \<Rightarrow> nat list \<Rightarrow> vstate \<Rightarrow> vstate" where
  "blend m dirichlet_expectation ids s =
     (let rhot = rho (offset m) (decay m) (t_step s);
          gamma' = (\<lambda>a k. (1 - rhot) * var_gamma s a k + rhot * tilde_gamma s a k);
          lambda' = (\<lambda>k v. if v \<in> set ids
                            then (1 - rhot) * var_lambda s k v + rhot * tilde_lambda s k v
                            else var_lambda s k v);
          Elogbeta' = dirichlet_expectation (num_topics m) (num_terms m) lambda'
      in s\<lparr>t_step := t_step s + 1,
            var_gamma := gamma',
            var_lambda := lambda',
            Elogtheta := dirichlet_expectation (num_authors m) (num_topics m) gamma',
            Elogbeta := Elogbeta',
            expElogbeta := (\<lambda>k v. exp (Elogbeta' k v))\<rparr>)"

definition doc_step :: "OnlineAtVb \<Rightarrow> dirichlet \<Rightarrow> nat \<Rightarrow> document \<Rightarrow> vstate \<Rightarrow> py_error + vstate" where
  "doc_step m dirichlet_expectation d doc s =
     (case doc_errors m d doc of
        Some e \<Rightarrow> Inl e
      | None \<Rightarrow>
          (let ids = map fst doc;
               authors_d = (case map_of (doc2author m) d of Some as \<Rightarrow> as | None \<Rightarrow> []);
               s1 = s\<lparr>var_mu := init_mu ids authors_d\<rparr>;
               s2 = iterate m doc authors_d 0 (iterations m) s1
           in Inr (blend m dirichlet_expectation ids s2)))"

text \<open>The loop \<^verbatim>\<open>for d, doc in enumerate(corpus)\<close>, from document index \<open>d\<close> on.\<close>

fun corpus_loop :: "OnlineAtVb \<Rightarrow> dirichlet \<Rightarrow> nat \<Rightarrow> document list \<Rightarrow> vstate \<Rightarrow> py_error + vstate" where
  "corpus_loop m dirichlet_expectation d [] s = Inr s"
| "corpus_loop m dirichlet_expectation d (doc # docs) s =
     (case doc_step m dirichlet_expectation d doc s of
        Inl e \<Rightarrow> Inl e
      | Inr s' \<Rightarrow> corpus_loop m dirichlet_expectation (Suc d) docs s')"

subsection \<open>The bound evaluator's exceptions (lines 316-354)\<close>

text \<open>
  The three bounds are only logged; their values do not reach the matrices. What
  \<^verbatim>\<open>word_bound\<close> can do to a run is raise: \<^verbatim>\<open>self.doc2author[d]\<close>, the indexing
  \<^verbatim>\<open>Elogtheta[a, k] + Elogbeta[k, v]\<close>, and \<^verbatim>\<open>1.0 / len(authors_d)\<close>. It walks
  \<^verbatim>\<open>self.corpus\<close>. \<^verbatim>\<open>theta_bound\<close> and \<^verbatim>\<open>beta_bound\<close> index inside the shapes only;
  they combine the vectors \<^verbatim>\<open>self.alpha\<close> and \<^verbatim>\<open>self.eta\<close> with a row of \<open>gamma\<close> and with
  \<open>lambda\<close> elementwise, which numpy refuses (\<^verbatim>\<open>ValueError\<close>) unless the lengths are equal
  or one of them is 1.
\<close>

definition word_bound_doc_errors :: "OnlineAtVb \<Rightarrow> nat \<Rightarrow> document \<Rightarrow> py_error option" where
  "word_bound_doc_errors m d doc =
     (case map_of (doc2author m) d of
        None \<Rightarrow> Some KeyError
      | Some authors_d \<Rightarrow>
          (let ids = map fst doc in
           if 0 < num_topics m \<and> authors_d \<noteq> [] \<and> ids \<noteq> [] \<and>
              ((\<exists>v\<in>set ids. num_terms m \<le> v) \<or> (\<exists>a\<in>set authors_d. num_authors m \<le> a))
             then Some IndexError
           else if authors_d = [] then Some ZeroDivisionError
           else None))"

fun word_bound_errors :: "OnlineAtVb \<Rightarrow> nat \<Rightarrow> document list \<Rightarrow> py_error option" where
  "word_bound_errors m d [] = None"
| "word_bound_errors m d (doc # docs) =
     (case word_bound_doc_errors m d doc of
        Some e \<Rightarrow> Some e
      | None \<Rightarrow> word_bound_errors m (Suc d) docs)"

definition broadcastable :: "nat \<Rightarrow> nat \<Rightarrow> bool" where
  "broadcastable n k \<longleftrightarrow> n = k \<or> n = 1 \<or> k = 1"

text \<open>
  Lines 170-172 and 296-298: \<^verbatim>\<open>word_bound\<close>, then \<^verbatim>\<open>theta_bound\<close> (line 370, once per
  author), then \<^verbatim>\<open>beta_bound\<close> (line 378).
\<close>

definition bound_errors :: "OnlineAtVb \<Rightarrow> py_error option" where
  "bound_errors m =
     (case word_bound_errors m 0 (corpus m) of
        Some e \<Rightarrow> Some e
      | None \<Rightarrow>
          if 0 < num_authors m \<and> \<not> broadcastable (length (alpha m)) (num_topics m)
            then Some (ValueError ''operands could not be broadcast together'')
          else if \<not> broadcastable (length (eta m)) (num_terms m)
            then Some (ValueError ''operands could not be broadcast together'')
          else None)"

subsection \<open>The inference driver (lines 140-314)\<close>

text \<open>
  The loop \<^verbatim>\<open>for _pass in xrange(self.passes)\<close>, from pass index \<open>pass\<close> with \<open>n\<close> passes
  left: the pass over the corpus, then \<^verbatim>\<open>_pass % self.eval_every\<close> (a
  \<^verbatim>\<open>ZeroDivisionError\<close> for \<open>eval_every = 0\<close>) and the bounds.
\<close>

fun passes_loop ::
  "OnlineAtVb \<Rightarrow> dirichlet \<Rightarrow> document list \<Rightarrow> nat \<Rightarrow> nat \<Rightarrow> vstate \<Rightarrow> py_error + vstate" where
  "passes_loop m dirichlet_expectation docs pass 0 s = Inr s"
| "passes_loop m dirichlet_expectation docs pass (Suc n) s =
     (case corpus_loop m dirichlet_expectation 0 docs (s\<lparr>converged := 0\<rparr>) of
        Inl e \<Rightarrow> Inl e
      | Inr s' \<Rightarrow>
          if eval_every m = 0 then Inl ZeroDivisionError
          else (case (if int pass mod eval_every m = 0 then bound_errors m else None) of
                  Some e \<Rightarrow> Inl e
                | None \<Rightarrow> passes_loop m dirichlet_expectation docs (Suc pass) n s'))"

text \<open>
  Lines 151-176: the state before the first pass. \<open>init_gamma\<close> and \<open>init_lambda\<close> are the
  two samples drawn from \<^verbatim>\<open>self.random_state.gamma(100., 1. / 100., shape)\<close>.
\<close>

definition init_state :: "OnlineAtVb \<Rightarrow> dirichlet \<Rightarrow> matrix \<Rightarrow> matrix \<Rightarrow> vstate" where
  "init_state m dirichlet_expectation init_gamma init_lambda =
     (let Elogbeta0 = dirichlet_expectation (num_topics m) (num_terms m) init_lambda
      in \<lparr>var_gamma = init_gamma, var_lambda = init_lambda,
          tilde_gamma = init_gamma, tilde_lambda = init_lambda,
          var_phi = (\<lambda>v k. 0), var_mu = (\<lambda>_. 0),
          Elogtheta = dirichlet_expectation (num_authors m) (num_topics m) init_gamma,
          Elogbeta = Elogbeta0, expElogbeta = (\<lambda>k v. exp (Elogbeta0 k v)),
          t_step = 0, converged = 0\<rparr>)"

text \<open>
  \<^verbatim>\<open>inference(self, corpus=None)\<close>: without an argument the corpus of the object is used.
  The result is the object with \<^verbatim>\<open>num_docs\<close>, \<^verbatim>\<open>var_gamma\<close> and \<^verbatim>\<open>var_lambda\<close> set; the
  returned pair is these two matrices.
\<close>

definition inference ::
  "dirichlet \<Rightarrow> matrix \<Rightarrow> matrix \<Rightarrow> OnlineAtVb \<Rightarrow> document list option \<Rightarrow> py_error + OnlineAtVb" where
  "inference dirichlet_expectation init_gamma init_lambda self docs_arg =
     (let docs = (case docs_arg of None \<Rightarrow> corpus self | Some c \<Rightarrow> c);
          m = self\<lparr>num_docs := length docs\<rparr>
      in case bound_errors m of
           Some e \<Rightarrow> Inl e
         | None \<Rightarrow>
             (case passes_loop m dirichlet_expectation docs 0 (passes m)
                     (init_state m dirichlet_expectation init_gamma init_lambda) of
                Inl e \<Rightarrow> Inl e
              | Inr s \<Rightarrow> Inr (m\<lparr>self_var_lambda := var_lambda s, self_var_gamma := var_gamma s\<rparr>)))"

subsection \<open>The constructor (lines 45-135)\<close>

text \<open>
  The keyword arguments that the constructor reads. \<^verbatim>\<open>alpha\<close> and \<^verbatim>\<open>eta\<close> are accepted
  and ignored by the source; \<^verbatim>\<open>id2author\<close> only feeds the name table \<^verbatim>\<open>author2id\<close>;
  \<^verbatim>\<open>random_state\<close> is represented by the two samples it yields.
\<close>

record kwargs =
  kw_corpus :: "document list option"
  kw_num_topics :: nat
  kw_id2word :: "(nat, string) dict option"
  kw_author2doc :: "(nat, nat list) dict option"
  kw_doc2author :: "(nat, nat list) dict option"
  kw_threshold :: real
  kw_minimum_probability :: real
  kw_iterations :: nat
  kw_passes :: nat
  kw_decay :: real
  kw_offset :: real
  kw_eval_every :: int

text \<open>Lines 76-82: the documents of every author turned into the authors of every document.\<close>

definition derive_doc2author ::
  "document list \<Rightarrow> (nat, nat list) dict \<Rightarrow> (nat, nat list) dict" where
  "derive_doc2author docs a2d =
     map (\<lambda>d. (d, map fst (filter (\<lambda>(a, a_doc_ids). d \<in> set a_doc_ids) a2d)))
       [0..<length docs]"

text \<open>
  Lines 87-98: the set of all author ids is collected, and the dictionary is then built
  for \<^verbatim>\<open>a in range(len(authors_ids))\<close>.
\<close>

definition derive_author2doc :: "(nat, nat list) dict \<Rightarrow> (nat, nat list) dict" where
  "derive_author2doc d2a =
     (let authors_ids = remdups (concat (map snd d2a))
      in map (\<lambda>a. (a, map fst (filter (\<lambda>(d, a_ids). a \<in> set a_ids) d2a)))
           [0..<length authors_ids])"

text \<open>
  Lines 55-62. \<^verbatim>\<open>utils.dict_from_corpus\<close> is not part of the source; the size of the
  dictionary it returns is the parameter \<open>dict_from_corpus_len\<close>.
\<close>

definition vocabulary_size ::
  "(document list \<Rightarrow> nat) \<Rightarrow> document list option \<Rightarrow> (nat, string) dict option \<Rightarrow> py_error + nat" where
  "vocabulary_size dict_from_corpus_len docs_arg id2word =
     (case id2word of
        None \<Rightarrow> (case docs_arg of
                   None \<Rightarrow> Inl TypeError
                 | Some docs \<Rightarrow> Inr (dict_from_corpus_len docs))
      | Some i2w \<Rightarrow> if 0 < length i2w then Inr (1 + fold max (map fst i2w) 0) else Inr 0)"

text \<open>
  Modelled from the spec: the value of \<^verbatim>\<open>self.num_topics\<close> that line 116 reads. Line 122
  assigns the attribute only later and no constructor of the base class is called, so
  the read is answered by the base class \<^verbatim>\<open>AtVb\<close>, which is missing from the source. The
  spec (section 3, hyperparameters) has \<open>alpha\<close> uniform \<open>1 / num_topics\<close> over the topics of
  the model: the value read is the number of topics given to the constructor.
\<close>

definition inherited_num_topics :: "kwargs \<Rightarrow> nat" where
  "inherited_num_topics kw = kw_num_topics kw"

text \<open>
  \<^verbatim>\<open>__init__\<close>. The three \<^verbatim>\<open>ValueError\<close>s of lines 52, 65 and 70 are the configuration
  errors of the constructor. Lines 116 and 117 build \<^verbatim>\<open>self.alpha\<close> and \<^verbatim>\<open>self.eta\<close> as
  vectors with one entry per topic and per term. The object is returned after
  \<^verbatim>\<open>self.inference(corpus)\<close>.
\<close>

definition configuration_errors :: "py_error set" where
  "configuration_errors =
     {ValueError ''at least one of corpus/id2word must be specified, to establish input space dimensionality'',
      ValueError ''cannot compute LDA over an empty collection (no terms)'',
      ValueError ''at least one of author2doc/doc2author must be specified, to establish input space dimensionality''}"

definition construct ::
  "(document list \<Rightarrow> nat) \<Rightarrow> dirichlet \<Rightarrow> matrix \<Rightarrow> matrix \<Rightarrow> kwargs \<Rightarrow> py_error + OnlineAtVb" where
  "construct dict_from_corpus_len dirichlet_expectation init_gamma init_lambda kw =
     (if kw_corpus kw = None \<and> kw_id2word kw = None
      then Inl (ValueError ''at least one of corpus/id2word must be specified, to establish input space dimensionality'')
      else case vocabulary_size dict_from_corpus_len (kw_corpus kw) (kw_id2word kw) of
        Inl e \<Rightarrow> Inl e
      | Inr terms \<Rightarrow>
          if terms = 0
          then Inl (ValueError ''cannot compute LDA over an empty collection (no terms)'')
          else if kw_doc2author kw = None \<and> kw_author2doc kw = None
          then Inl (ValueError ''at least one of author2doc/doc2author must be specified, to establish input space dimensionality'')
          else case (case kw_doc2author kw of
                       None \<Rightarrow>
                         (case kw_corpus kw of
                            None \<Rightarrow> Inl TypeError
                          | Some docs \<Rightarrow>
                              (case kw_author2doc kw of
                                 None \<Rightarrow> Inl TypeError
                               | Some a2d \<Rightarrow> Inr (a2d, derive_doc2author docs a2d)))
                     | Some d2a \<Rightarrow>
                         (case kw_author2doc kw of
                            None \<Rightarrow> Inr (derive_author2doc d2a, d2a)
                          | Some a2d \<Rightarrow> Inr (a2d, d2a))) of
            Inl e \<Rightarrow> Inl e
          | Inr (a2d, d2a) \<Rightarrow>
              (case kw_corpus kw of
                 None \<Rightarrow> Inl TypeError
               | Some docs \<Rightarrow>
                   inference dirichlet_expectation init_gamma init_lambda
                     \<lparr>num_terms = terms,
                      num_topics = kw_num_topics kw,
                      num_authors = length a2d,
                      num_docs = length docs,
                      author2doc = a2d,
                      doc2author = d2a,
                      alpha = replicate (inherited_num_topics kw)
                                (1 / real (inherited_num_topics kw)),
                      eta = replicate terms (1 / real terms),
                      corpus = docs,
                      iterations = kw_iterations kw,
                      passes = kw_passes kw,
                      threshold = kw_threshold kw,
                      minimum_probability = kw_minimum_probability kw,
                      decay = kw_decay kw,
                      offset = kw_offset kw,
                      eval_every = kw_eval_every kw,
                      self_var_gamma = (\<lambda>a k. 0),
                      self_var_lambda = (\<lambda>k v. 0)\<rparr>
                     (Some docs)))"

subsection \<open>The author query (lines 437-454)\<close>

text \<open>
  \<^verbatim>\<open>self.var_gamma[author_id, :]\<close> is a row of a matrix with \<open>num_authors\<close> rows: numpy
  counts a negative index from the end and raises \<^verbatim>\<open>IndexError\<close> outside
  \<open>[-num_authors, num_authors)\<close>. With a zero row sum numpy yields non-finite entries,
  which the model does not represent.
\<close>

definition row_index :: "nat \<Rightarrow> int \<Rightarrow> py_error + nat" where
  "row_index rows i =
     (if 0 \<le> i \<and> i < int rows then Inr (nat i)
      else if - int rows \<le> i \<and> i < 0 then Inr (nat (int rows + i))
      else Inl IndexError)"

definition get_author_topics ::
  "OnlineAtVb \<Rightarrow> int \<Rightarrow> real option \<Rightarrow> py_error + (nat \<times> real) list" where
  "get_author_topics self author_id minimum_probability_arg =
     (let minimum_probability0 =
            (case minimum_probability_arg of None \<Rightarrow> minimum_probability self | Some p \<Rightarrow> p);
          minimum_probability1 = max minimum_probability0 (1 / 10 ^ 8)
      in case row_index (num_authors self) author_id of
           Inl e \<Rightarrow> Inl e
         | Inr a \<Rightarrow>
             (let total = (\<Sum>k\<leftarrow>[0..<num_topics self]. self_var_gamma self a k);
                  topic_dist = (\<lambda>k. self_var_gamma self a k / total)
              in Inr (filter (\<lambda>(topicid, topicvalue). topicvalue \<ge> minimum_probability1)
                       (map (\<lambda>k. (k, topic_dist k)) [0..<num_topics self]))))"

subsection \<open>Predicates of the statements\<close>

text \<open>
  A matrix of the given shape is strictly positive entrywise. The state invariant of the
  inference loop: the two global matrices and the two local ones are strictly positive,
  and \<^verbatim>\<open>expElogbeta\<close>, an exponential, is not negative.
\<close>

definition strictly_positive :: "nat \<Rightarrow> nat \<Rightarrow> matrix \<Rightarrow> bool" where
  "strictly_positive rows cols M \<longleftrightarrow> (\<forall>i<rows. \<forall>j<cols. 0 < M i j)"

definition positive_state :: "OnlineAtVb \<Rightarrow> vstate \<Rightarrow> bool" where
  "positive_state m s \<longleftrightarrow>
     strictly_positive (num_authors m) (num_topics m) (var_gamma s) \<and>
     strictly_positive (num_topics m) (num_terms m) (var_lambda s) \<and>
     strictly_positive (num_authors m) (num_topics m) (tilde_gamma s) \<and>
     strictly_positive (num_topics m) (num_terms m) (tilde_lambda s) \<and>
     (\<forall>k v. 0 \<le> expElogbeta s k v)"

section \<open>Properties\<close>

subsection \<open>The learning rate\<close>

lemma rho_pos: "0 < off + real t \<Longrightarrow> 0 < rho off dec t"
  by (simp add: rho_def)

lemma rho_le_one:
  assumes "1 \<le> off + real t" and "0 \<le> dec"
  shows "rho off dec t \<le> 1"
proof -
  have "(off + real t) powr (- dec) \<le> 1 powr (- dec)"
    using assms by (intro powr_mono2') simp_all
  then show ?thesis by (simp add: rho_def)
qed

lemma rho_strict_antimono:
  assumes "0 < off" and "0 < dec" and "t < t'"
  shows "rho off dec t' < rho off dec t"
proof -
  have "0 < off + real t" "off + real t < off + real t'"
    using assms by simp_all
  then show ?thesis
    unfolding rho_def using assms(2) by (intro powr_less_mono2_neg) simp_all
qed

text \<open>
  C4, as stated, fails: with \<open>off = 1/2\<close> and \<open>dec = 1\<close> (both allowed by the
  claim) the first learning rate is \<open>rho 0 = 2\<close>, outside \<open>(0, 1]\<close>.
\<close>

theorem rho_unit_interval_counterexample:
  "(0::real) < 1/2 \<and> (0::real) < 1 \<and> (1::real) \<le> 1 \<and> \<not> rho (1/2) 1 0 \<le> 1"
  by (simp add: rho_def powr_minus)

text \<open>
  C4, amended: for every step \<open>t\<close>, given \<open>off \<ge> 1\<close> and \<open>dec\<close> in \<open>(0, 1]\<close>, the
  learning rate \<open>rho t = (off + t)^(-dec)\<close> lies in \<open>(0, 1]\<close>, and \<open>rho\<close> is strictly
  decreasing in \<open>t\<close>.
\<close>

theorem rho_unit_interval_decreasing:
  assumes "1 \<le> off" and "0 < dec" and "dec \<le> 1"
  shows "0 < rho off dec t \<and> rho off dec t \<le> 1 \<and>
         (\<forall>t'. t < t' \<longrightarrow> rho off dec t' < rho off dec t)"
proof -
  have pos: "0 < off + real t" and ge: "1 \<le> off + real t"
    using assms(1) by simp_all
  have "0 < rho off dec t" using pos by (rule rho_pos)
  moreover have "rho off dec t \<le> 1" using ge assms(2) by (intro rho_le_one) simp_all
  moreover have "\<forall>t'. t < t' \<longrightarrow> rho off dec t' < rho off dec t"
    using assms(1,2) by (auto intro: rho_strict_antimono)
  ultimately show ?thesis by simp
qed

theorem rho_unit_interval_decreasing_witness:
  "(1::real) \<le> 1 \<and> (0::real) < 1 \<and> (1::real) \<le> 1 \<and>
   0 < rho 1 1 0 \<and> rho 1 1 0 \<le> 1 \<and> rho 1 1 1 < rho 1 1 0"
  using rho_unit_interval_decreasing [of 1 1 0] by simp

subsection \<open>The constructor's errors\<close>

lemma store_in_cell_not_configuration:
  "store_in_cell xs = Inl e \<Longrightarrow> e \<notin> configuration_errors"
  by (auto simp: store_in_cell_def configuration_errors_def split: list.splits)

lemma gamma_errors_not_configuration:
  "gamma_errors m A = Some e \<Longrightarrow> e \<notin> configuration_errors"
proof (induction A)
  case Nil
  then show ?case by simp
next
  case (Cons a A)
  then show ?case
    by (auto simp: configuration_errors_def split: if_splits sum.splits
             dest: store_in_cell_not_configuration)
qed

lemma round_errors_not_configuration:
  "round_errors m doc A = Some e \<Longrightarrow> e \<notin> configuration_errors"
  by (auto simp: round_errors_def Let_def configuration_errors_def
           split: if_splits option.splits sum.splits
           dest: gamma_errors_not_configuration store_in_cell_not_configuration)

lemma doc_errors_not_configuration:
  "doc_errors m d doc = Some e \<Longrightarrow> e \<notin> configuration_errors"
  by (auto simp: doc_errors_def configuration_errors_def
           split: if_splits option.splits
           dest: round_errors_not_configuration)

lemma doc_step_not_configuration:
  "doc_step m de d doc s = Inl e \<Longrightarrow> e \<notin> configuration_errors"
  by (auto simp: doc_step_def Let_def split: option.splits dest: doc_errors_not_configuration)

lemma corpus_loop_not_configuration:
  "corpus_loop m de d docs s = Inl e \<Longrightarrow> e \<notin> configuration_errors"
  by (induction docs arbitrary: d s)
     (auto split: sum.splits dest: doc_step_not_configuration)

lemma word_bound_errors_not_configuration:
  "word_bound_errors m d docs = Some e \<Longrightarrow> e \<notin> configuration_errors"
  by (induction docs arbitrary: d)
     (auto simp: word_bound_doc_errors_def Let_def configuration_errors_def
           split: option.splits if_splits)

lemma bound_errors_not_configuration:
  "bound_errors m = Some e \<Longrightarrow> e \<notin> configuration_errors"
  by (auto simp: bound_errors_def configuration_errors_def
           split: option.splits if_splits
           dest: word_bound_errors_not_configuration)

lemma passes_loop_not_configuration:
  "passes_loop m de docs p n s = Inl e \<Longrightarrow> e \<notin> configuration_errors"
proof (induction n arbitrary: p s)
  case 0
  then show ?case by simp
next
  case (Suc n)
  then show ?case
    by (auto simp: configuration_errors_def split: sum.splits option.splits if_splits
             dest: corpus_loop_not_configuration bound_errors_not_configuration)
qed

lemma inference_not_configuration:
  "inference de ig il self docs_arg = Inl e \<Longrightarrow> e \<notin> configuration_errors"
  by (auto simp: inference_def Let_def split: sum.splits option.splits
           dest: passes_loop_not_configuration bound_errors_not_configuration)

text \<open>
  C8, as stated, fails: an empty corpus is not rejected. With a one-word \<^verbatim>\<open>id2word\<close> and
  an \<^verbatim>\<open>author2doc\<close> map, the constructor runs through (inference has no document to
  visit) and returns the object.
\<close>

theorem construct_empty_corpus_counterexample:
  "kw_corpus \<lparr>kw_corpus = Some [], kw_num_topics = 1, kw_id2word = Some [(0, ''w'')],
        kw_author2doc = Some [(0, [])], kw_doc2author = None,
        kw_threshold = 1/1000, kw_minimum_probability = 1/100, kw_iterations = 10,
        kw_passes = 1, kw_decay = 1/2, kw_offset = 1, kw_eval_every = 1\<rparr> = Some [] \<and>
   \<not> isl (construct (\<lambda>docs. 0) (\<lambda>rows cols M i j. 0) (\<lambda>a k. 1) (\<lambda>k v. 1)
      \<lparr>kw_corpus = Some [], kw_num_topics = 1, kw_id2word = Some [(0, ''w'')],
        kw_author2doc = Some [(0, [])], kw_doc2author = None,
        kw_threshold = 1/1000, kw_minimum_probability = 1/100, kw_iterations = 10,
        kw_passes = 1, kw_decay = 1/2, kw_offset = 1, kw_eval_every = 1\<rparr>)"
  by (simp add: construct_def vocabulary_size_def derive_doc2author_def inference_def Let_def
        inherited_num_topics_def bound_errors_def broadcastable_def)

text \<open>
  C8, amended: construction raises one of its configuration errors (the \<^verbatim>\<open>ValueError\<close>s
  of lines 52, 65 and 70) if and only if both vocabulary sources (corpus and id2word)
  are missing, or the vocabulary is empty, or both author2doc and doc2author are
  missing. An empty corpus is not among the conditions, and every other failure of the
  construction is none of the three configuration errors.
\<close>

theorem construct_configuration_error_iff:
  "(\<exists>e\<in>configuration_errors. construct dl de ig il kw = Inl e) \<longleftrightarrow>
     (kw_corpus kw = None \<and> kw_id2word kw = None) \<or>
     vocabulary_size dl (kw_corpus kw) (kw_id2word kw) = Inr 0 \<or>
     (kw_doc2author kw = None \<and> kw_author2doc kw = None)"
proof
  assume "\<exists>e\<in>configuration_errors. construct dl de ig il kw = Inl e"
  then obtain e where e: "e \<in> configuration_errors" "construct dl de ig il kw = Inl e"
    by blast
  show "(kw_corpus kw = None \<and> kw_id2word kw = None) \<or>
     vocabulary_size dl (kw_corpus kw) (kw_id2word kw) = Inr 0 \<or>
     (kw_doc2author kw = None \<and> kw_author2doc kw = None)"
  proof (rule ccontr)
    assume n: "\<not> ((kw_corpus kw = None \<and> kw_id2word kw = None) \<or>
     vocabulary_size dl (kw_corpus kw) (kw_id2word kw) = Inr 0 \<or>
     (kw_doc2author kw = None \<and> kw_author2doc kw = None))"
    have "e \<notin> configuration_errors"
      using e(2) n
      by (auto simp: construct_def vocabulary_size_def configuration_errors_def
               split: sum.splits option.splits if_splits
               dest!: inference_not_configuration)
    then show False using e(1) by simp
  qed
next
  assume "(kw_corpus kw = None \<and> kw_id2word kw = None) \<or>
     vocabulary_size dl (kw_corpus kw) (kw_id2word kw) = Inr 0 \<or>
     (kw_doc2author kw = None \<and> kw_author2doc kw = None)"
  then show "\<exists>e\<in>configuration_errors. construct dl de ig il kw = Inl e"
    by (auto simp: construct_def vocabulary_size_def configuration_errors_def
             split: sum.splits option.splits if_splits)
qed

theorem construct_configuration_error_iff_witness:
  "\<exists>e\<in>configuration_errors. construct (\<lambda>docs. 0) (\<lambda>rows cols M i j. 0) (\<lambda>a k. 1) (\<lambda>k v. 1)
      \<lparr>kw_corpus = Some [[(0, 3)]], kw_num_topics = 1, kw_id2word = Some [(0, ''w'')],
        kw_author2doc = None, kw_doc2author = None,
        kw_threshold = 1/1000, kw_minimum_probability = 1/100, kw_iterations = 10,
        kw_passes = 1, kw_decay = 1/2, kw_offset = 1, kw_eval_every = 1\<rparr> = Inl e"
  using construct_configuration_error_iff
     [of "\<lambda>docs. 0" "\<lambda>rows cols M i j. 0" "\<lambda>a k. 1" "\<lambda>k v. 1"
      "\<lparr>kw_corpus = Some [[(0, 3)]], kw_num_topics = 1, kw_id2word = Some [(0, ''w'')],
        kw_author2doc = None, kw_doc2author = None,
        kw_threshold = 1/1000, kw_minimum_probability = 1/100, kw_iterations = 10,
        kw_passes = 1, kw_decay = 1/2, kw_offset = 1, kw_eval_every = 1\<rparr>"]
  by simp

text \<open>
  C10: with \<^verbatim>\<open>corpus=None\<close> the constructor always ends in an error, so no object
  exists without a construction-time corpus. When a non-empty id2word and an author map
  are supplied, the error is the \<^verbatim>\<open>TypeError\<close> of applying \<^verbatim>\<open>enumerate\<close> or \<^verbatim>\<open>len\<close> to
  \<^verbatim>\<open>None\<close>.
\<close>

theorem construct_without_corpus:
  assumes "kw_corpus kw = None"
  shows "(\<exists>e. construct dl de ig il kw = Inl e) \<and>
         (\<forall>i2w. kw_id2word kw = Some i2w \<and> i2w \<noteq> [] \<and>
                (kw_author2doc kw \<noteq> None \<or> kw_doc2author kw \<noteq> None)
                \<longrightarrow> construct dl de ig il kw = Inl TypeError)"
  using assms
  by (auto simp: construct_def vocabulary_size_def split: sum.splits option.splits if_splits)

theorem construct_without_corpus_witness:
  "construct (\<lambda>docs. 0) (\<lambda>rows cols M i j. 0) (\<lambda>a k. 1) (\<lambda>k v. 1)
      \<lparr>kw_corpus = None, kw_num_topics = 1, kw_id2word = Some [(0, ''w'')],
        kw_author2doc = Some [(0, [0])], kw_doc2author = None,
        kw_threshold = 1/1000, kw_minimum_probability = 1/100, kw_iterations = 10,
        kw_passes = 1, kw_decay = 1/2, kw_offset = 1, kw_eval_every = 1\<rparr> = Inl TypeError"
  using construct_without_corpus [of
      "\<lparr>kw_corpus = None, kw_num_topics = 1, kw_id2word = Some [(0, ''w'')],
        kw_author2doc = Some [(0, [0])], kw_doc2author = None,
        kw_threshold = 1/1000, kw_minimum_probability = 1/100, kw_iterations = 10,
        kw_passes = 1, kw_decay = 1/2, kw_offset = 1, kw_eval_every = 1\<rparr>"
      "\<lambda>docs. 0" "\<lambda>rows cols M i j. 0" "\<lambda>a k. 1" "\<lambda>k v. 1"]
  by simp

subsection \<open>The derived author maps\<close>

lemma inference_keeps_maps:
  assumes "inference de ig il self docs_arg = Inr m"
  shows "author2doc m = author2doc self \<and> doc2author m = doc2author self \<and> corpus m = corpus self"
  using assms by (auto simp: inference_def Let_def split: option.splits sum.splits)

lemma listed_dict_iff:
  assumes "distinct (map fst xs)"
  shows "(\<exists>vs. map_of xs k = Some vs \<and> x \<in> set vs) \<longleftrightarrow> (\<exists>vs. (k, vs) \<in> set xs \<and> x \<in> set vs)"
  using assms by (auto simp: map_of_eq_Some_iff)

lemma keys_of_listing:
  "x \<in> set (map fst (filter (\<lambda>(k, vs). y \<in> set vs) xs)) \<longleftrightarrow> (\<exists>vs. (x, vs) \<in> set xs \<and> y \<in> set vs)"
  by (induction xs) auto

lemma map_of_derive_doc2author:
  "map_of (derive_doc2author docs a2d) d =
     (if d < length docs then Some (map fst (filter (\<lambda>(a, a_doc_ids). d \<in> set a_doc_ids) a2d))
      else None)"
  by (simp add: derive_doc2author_def map_of_map_restrict restrict_map_def)

lemma map_of_derive_author2doc:
  "map_of (derive_author2doc d2a) a =
     (if a < length (remdups (concat (map snd d2a)))
      then Some (map fst (filter (\<lambda>(d, a_ids). a \<in> set a_ids) d2a)) else None)"
  by (simp add: derive_author2doc_def Let_def map_of_map_restrict restrict_map_def)

lemma derive_doc2author_consistent:
  assumes "distinct (map fst a2d)" and "d < length docs"
  shows "(\<exists>ds. map_of a2d a = Some ds \<and> d \<in> set ds) \<longleftrightarrow>
         (\<exists>as. map_of (derive_doc2author docs a2d) d = Some as \<and> a \<in> set as)"
  using assms(2) unfolding listed_dict_iff [OF assms(1)] map_of_derive_doc2author
  by (simp add: keys_of_listing del: set_map)

lemma derive_author2doc_consistent:
  assumes "distinct (map fst d2a)"
      and "\<forall>a\<in>set (concat (map snd d2a)). a < length (remdups (concat (map snd d2a)))"
  shows "(\<exists>ds. map_of (derive_author2doc d2a) a = Some ds \<and> d \<in> set ds) \<longleftrightarrow>
         (\<exists>as. map_of d2a d = Some as \<and> a \<in> set as)"
proof -
  have "(\<exists>as. (d, as) \<in> set d2a \<and> a \<in> set as) \<Longrightarrow> a < length (remdups (concat (map snd d2a)))"
    using assms(2) by force
  then show ?thesis
    unfolding listed_dict_iff [OF assms(1)] map_of_derive_author2doc
    by (auto simp: keys_of_listing simp del: set_map)
qed

lemma keys_derive_author2doc:
  "map fst (derive_author2doc d2a) = [0..<length (remdups (concat (map snd d2a)))]"
  by (simp add: derive_author2doc_def Let_def comp_def)

text \<open>
  C7, as stated, fails when only \<^verbatim>\<open>doc2author\<close> is given and the author ids are not
  \<open>0, \<dots>, n-1\<close>: for one document written by author 1 the derived \<^verbatim>\<open>author2doc\<close> has
  the single key 0, so author 1 is listed for document 0 while document 0 is listed for
  no author.
\<close>

theorem derived_author2doc_counterexample:
  "(case construct (\<lambda>docs. 0) (\<lambda>rows cols M i j. 0) (\<lambda>a k. 1) (\<lambda>k v. 1)
      \<lparr>kw_corpus = Some [[]], kw_num_topics = 1, kw_id2word = Some [(0, ''w'')],
        kw_author2doc = None, kw_doc2author = Some [(0, [1])],
        kw_threshold = 1/1000, kw_minimum_probability = 1/100, kw_iterations = 10,
        kw_passes = 0, kw_decay = 1/2, kw_offset = 1, kw_eval_every = 1\<rparr> of
      Inl e \<Rightarrow> False
    | Inr m \<Rightarrow> corpus m = [[]] \<and> doc2author m = [(0, [1])] \<and> author2doc m = [(0, [])] \<and>
               map_of (doc2author m) 0 = Some [1] \<and> map_of (author2doc m) 1 = None)"
  by (simp add: construct_def vocabulary_size_def derive_author2doc_def inference_def Let_def
        inherited_num_topics_def bound_errors_def broadcastable_def word_bound_doc_errors_def)

text \<open>
  C7, amended: whenever exactly one of the two author maps is supplied at construction,
  the derived map is consistent with the supplied one on the documents of the corpus
  (\<open>d\<close> is listed in \<open>author2doc[a]\<close> if and only if \<open>a\<close> is listed in \<open>doc2author[d]\<close>),
  provided that, when only \<^verbatim>\<open>doc2author\<close> is given, the author ids occurring in it are
  all below the number \<open>n\<close> of distinct author ids (they are \<open>0, \<dots>, n-1\<close>, the dense ids
  that index the rows of \<open>gamma\<close>); the derived \<^verbatim>\<open>author2doc\<close> then has the keys
  \<open>0, \<dots>, n-1\<close>. The supplied dict has distinct keys.
\<close>

theorem construct_maps_consistent:
  assumes "construct dl de ig il kw = Inr m"
  shows "(\<forall>a2d. kw_doc2author kw = None \<and> kw_author2doc kw = Some a2d \<and> distinct (map fst a2d) \<longrightarrow>
            (\<forall>a d. d < length (corpus m) \<longrightarrow>
               ((\<exists>ds. map_of (author2doc m) a = Some ds \<and> d \<in> set ds) \<longleftrightarrow>
                (\<exists>as. map_of (doc2author m) d = Some as \<and> a \<in> set as)))) \<and>
         (\<forall>d2a. kw_author2doc kw = None \<and> kw_doc2author kw = Some d2a \<and> distinct (map fst d2a) \<and>
                (\<forall>a\<in>set (concat (map snd d2a)). a < length (remdups (concat (map snd d2a)))) \<longrightarrow>
            map fst (author2doc m) = [0..<length (remdups (concat (map snd d2a)))] \<and>
            (\<forall>a d. d < length (corpus m) \<longrightarrow>
               ((\<exists>ds. map_of (author2doc m) a = Some ds \<and> d \<in> set ds) \<longleftrightarrow>
                (\<exists>as. map_of (doc2author m) d = Some as \<and> a \<in> set as))))"
proof (intro conjI allI impI)
  fix a2d a d
  assume h: "kw_doc2author kw = None \<and> kw_author2doc kw = Some a2d \<and> distinct (map fst a2d)"
     and d: "d < length (corpus m)"
  from assms h obtain docs where
    "author2doc m = a2d" "doc2author m = derive_doc2author docs a2d" "corpus m = docs"
    by (auto simp: construct_def split: if_splits sum.splits option.splits
             dest!: inference_keeps_maps)
  with h d show "(\<exists>ds. map_of (author2doc m) a = Some ds \<and> d \<in> set ds) \<longleftrightarrow>
                (\<exists>as. map_of (doc2author m) d = Some as \<and> a \<in> set as)"
    using derive_doc2author_consistent [of a2d d docs a] by simp
next
  fix d2a
  assume h: "kw_author2doc kw = None \<and> kw_doc2author kw = Some d2a \<and> distinct (map fst d2a) \<and>
             (\<forall>a\<in>set (concat (map snd d2a)). a < length (remdups (concat (map snd d2a))))"
  from assms h have "author2doc m = derive_author2doc d2a"
    by (auto simp: construct_def split: if_splits sum.splits option.splits
             dest!: inference_keeps_maps)
  then show "map fst (author2doc m) = [0..<length (remdups (concat (map snd d2a)))]"
    by (simp add: keys_derive_author2doc)
next
  fix d2a a d
  assume h: "kw_author2doc kw = None \<and> kw_doc2author kw = Some d2a \<and> distinct (map fst d2a) \<and>
             (\<forall>a\<in>set (concat (map snd d2a)). a < length (remdups (concat (map snd d2a))))"
  from assms h have "author2doc m = derive_author2doc d2a" "doc2author m = d2a"
    by (auto simp: construct_def split: if_splits sum.splits option.splits
             dest!: inference_keeps_maps)
  with h show "(\<exists>ds. map_of (author2doc m) a = Some ds \<and> d \<in> set ds) \<longleftrightarrow>
                (\<exists>as. map_of (doc2author m) d = Some as \<and> a \<in> set as)"
    using derive_author2doc_consistent [of d2a a d] by simp
qed

theorem construct_maps_consistent_witness:
  "(\<exists>m. construct (\<lambda>docs. 0) (\<lambda>rows cols M i j. 0) (\<lambda>a k. 1) (\<lambda>k v. 1)
      \<lparr>kw_corpus = Some [[(0, 3)]], kw_num_topics = 1, kw_id2word = Some [(0, ''w'')],
        kw_author2doc = Some [(0, [0])], kw_doc2author = None,
        kw_threshold = 1/1000, kw_minimum_probability = 1/100, kw_iterations = 1,
        kw_passes = 1, kw_decay = 1/2, kw_offset = 1, kw_eval_every = 1\<rparr> = Inr m \<and>
      (\<forall>a d. d < length (corpus m) \<longrightarrow>
         ((\<exists>ds. map_of (author2doc m) a = Some ds \<and> d \<in> set ds) \<longleftrightarrow>
          (\<exists>as. map_of (doc2author m) d = Some as \<and> a \<in> set as)))) \<and>
   (\<exists>m. construct (\<lambda>docs. 0) (\<lambda>rows cols M i j. 0) (\<lambda>a k. 1) (\<lambda>k v. 1)
      \<lparr>kw_corpus = Some [[(0, 3)]], kw_num_topics = 1, kw_id2word = Some [(0, ''w'')],
        kw_author2doc = None, kw_doc2author = Some [(0, [0])],
        kw_threshold = 1/1000, kw_minimum_probability = 1/100, kw_iterations = 1,
        kw_passes = 1, kw_decay = 1/2, kw_offset = 1, kw_eval_every = 1\<rparr> = Inr m \<and>
      map fst (author2doc m) = [0] \<and>
      (\<forall>a d. d < length (corpus m) \<longrightarrow>
         ((\<exists>ds. map_of (author2doc m) a = Some ds \<and> d \<in> set ds) \<longleftrightarrow>
          (\<exists>as. map_of (doc2author m) d = Some as \<and> a \<in> set as))))"
proof -
  let ?kw1 = "\<lparr>kw_corpus = Some [[(0, 3)]], kw_num_topics = 1, kw_id2word = Some [(0, ''w'')],
        kw_author2doc = Some [(0, [0])], kw_doc2author = None,
        kw_threshold = 1/1000, kw_minimum_probability = 1/100, kw_iterations = 1,
        kw_passes = 1, kw_decay = 1/2, kw_offset = 1, kw_eval_every = 1\<rparr>"
  let ?kw2 = "\<lparr>kw_corpus = Some [[(0, 3)]], kw_num_topics = 1, kw_id2word = Some [(0, ''w'')],
        kw_author2doc = None, kw_doc2author = Some [(0, [0])],
        kw_threshold = 1/1000, kw_minimum_probability = 1/100, kw_iterations = 1,
        kw_passes = 1, kw_decay = 1/2, kw_offset = 1, kw_eval_every = 1\<rparr>"
  let ?c = "construct (\<lambda>docs. 0) (\<lambda>rows cols M i j. 0) (\<lambda>a k. 1) (\<lambda>k v. 1)"
  obtain m1 where m1: "?c ?kw1 = Inr m1"
    by (simp add: construct_def vocabulary_size_def derive_doc2author_def inference_def Let_def
        inherited_num_topics_def bound_errors_def broadcastable_def
        word_bound_doc_errors_def doc_step_def doc_errors_def round_errors_def store_in_cell_def)
  obtain m2 where m2: "?c ?kw2 = Inr m2"
    by (simp add: construct_def vocabulary_size_def derive_author2doc_def inference_def Let_def
        inherited_num_topics_def bound_errors_def broadcastable_def
        word_bound_doc_errors_def doc_step_def doc_errors_def round_errors_def store_in_cell_def)
  have c1: "\<forall>a d. d < length (corpus m1) \<longrightarrow>
         ((\<exists>ds. map_of (author2doc m1) a = Some ds \<and> d \<in> set ds) \<longleftrightarrow>
          (\<exists>as. map_of (doc2author m1) d = Some as \<and> a \<in> set as))"
    using construct_maps_consistent [OF m1] by simp
  have h2: "kw_author2doc ?kw2 = None \<and> kw_doc2author ?kw2 = Some [(0, [0])] \<and>
      distinct (map fst [(0::nat, [0::nat])]) \<and>
      (\<forall>a\<in>set (concat (map snd [(0::nat, [0::nat])])).
          a < length (remdups (concat (map snd [(0::nat, [0::nat])]))))"
    by simp
  have len: "[0..<length (remdups (concat (map snd [(0::nat, [0::nat])])))] = [0]"
    by simp
  note c2 = construct_maps_consistent [OF m2, THEN conjunct2, rule_format, OF h2, unfolded len]
  show ?thesis
  proof (rule conjI)
    show "\<exists>m. ?c ?kw1 = Inr m \<and>
      (\<forall>a d. d < length (corpus m) \<longrightarrow>
         ((\<exists>ds. map_of (author2doc m) a = Some ds \<and> d \<in> set ds) \<longleftrightarrow>
          (\<exists>as. map_of (doc2author m) d = Some as \<and> a \<in> set as)))"
      by (rule exI [of _ m1]) (rule conjI [OF m1 c1])
    show "\<exists>m. ?c ?kw2 = Inr m \<and>
      map fst (author2doc m) = [0] \<and>
      (\<forall>a d. d < length (corpus m) \<longrightarrow>
         ((\<exists>ds. map_of (author2doc m) a = Some ds \<and> d \<in> set ds) \<longleftrightarrow>
          (\<exists>as. map_of (doc2author m) d = Some as \<and> a \<in> set as)))"
      by (rule exI [of _ m2]) (rule conjI [OF m2 c2])
  qed
qed

subsection \<open>The author query\<close>

lemma fst_filter_enum:
  "map fst (filter (\<lambda>(k, p). P p) (map (\<lambda>k. (k, f k)) xs)) = filter (\<lambda>k. P (f k)) xs"
  by (induction xs) auto

lemma row_index_in_range:
  assumes "- int rows \<le> i" and "i < int rows"
  shows "row_index rows i = Inr (if 0 \<le> i then nat i else nat (int rows + i))"
  using assms by (simp add: row_index_def)

lemma row_index_out_of_range:
  assumes "i < - int rows \<or> int rows \<le> i"
  shows "row_index rows i = Inl IndexError"
  using assms by (auto simp: row_index_def)

text \<open>
  C9: for every author id and every supplied \<^verbatim>\<open>min_probability\<close> (0 included),
  \<^verbatim>\<open>get_author_topics\<close> normalises the row \<open>gamma[author_id, :]\<close> (row \<open>author_id\<close>, or row
  \<open>num_authors + author_id\<close> for a negative id, as numpy indexes) and returns exactly the
  pairs (topic id, probability) whose probability is at least
  \<open>max(min_probability, 1e-8)\<close>, in increasing order of topic id; no returned probability
  is below \<open>1e-8\<close>. An id outside \<open>[-num_authors, num_authors)\<close> is an \<^verbatim>\<open>IndexError\<close>. The
  row sum is non-zero, as it is for a positive gamma.
\<close>

theorem get_author_topics_spec:
  "(author_id < - int (num_authors self) \<or> int (num_authors self) \<le> author_id \<longrightarrow>
      get_author_topics self author_id (Some min_probability) = Inl IndexError) \<and>
   (- int (num_authors self) \<le> author_id \<and> author_id < int (num_authors self) \<and>
    a = (if 0 \<le> author_id then nat author_id else nat (int (num_authors self) + author_id)) \<and>
    (\<Sum>k\<leftarrow>[0..<num_topics self]. self_var_gamma self a k) \<noteq> 0 \<longrightarrow>
      (\<exists>ps. get_author_topics self author_id (Some min_probability) = Inr ps \<and>
           (\<forall>k p. (k, p) \<in> set ps \<longleftrightarrow>
               k < num_topics self \<and>
               p = self_var_gamma self a k / (\<Sum>j\<leftarrow>[0..<num_topics self]. self_var_gamma self a j) \<and>
               max min_probability (1 / 10 ^ 8) \<le> p) \<and>
           sorted_wrt (<) (map fst ps) \<and>
           (\<forall>(k, p) \<in> set ps. 1 / 10 ^ 8 \<le> p)))"
proof (intro conjI impI)
  assume "author_id < - int (num_authors self) \<or> int (num_authors self) \<le> author_id"
  then show "get_author_topics self author_id (Some min_probability) = Inl IndexError"
    by (simp add: get_author_topics_def Let_def row_index_out_of_range)
next
  assume h: "- int (num_authors self) \<le> author_id \<and> author_id < int (num_authors self) \<and>
    a = (if 0 \<le> author_id then nat author_id else nat (int (num_authors self) + author_id)) \<and>
    (\<Sum>k\<leftarrow>[0..<num_topics self]. self_var_gamma self a k) \<noteq> 0"
  then have row: "row_index (num_authors self) author_id = Inr a"
    by (simp add: row_index_in_range)
  let ?total = "\<Sum>j\<leftarrow>[0..<num_topics self]. self_var_gamma self a j"
  let ?ps = "filter (\<lambda>(topicid, topicvalue). topicvalue \<ge> max min_probability (1 / 10 ^ 8))
               (map (\<lambda>k. (k, self_var_gamma self a k / ?total)) [0..<num_topics self])"
  have ret: "get_author_topics self author_id (Some min_probability) = Inr ?ps"
    using row by (auto simp: get_author_topics_def Let_def intro!: filter_cong)
  have mem: "\<forall>k p. (k, p) \<in> set ?ps \<longleftrightarrow>
               k < num_topics self \<and> p = self_var_gamma self a k / ?total \<and>
               max min_probability (1 / 10 ^ 8) \<le> p"
    by auto
  have ord: "sorted_wrt (<) (map fst ?ps)"
    unfolding fst_filter_enum by (rule sorted_wrt_filter) simp
  have low: "\<forall>(k, p) \<in> set ?ps. 1 / 10 ^ 8 \<le> p"
    by auto
  show "\<exists>ps. get_author_topics self author_id (Some min_probability) = Inr ps \<and>
           (\<forall>k p. (k, p) \<in> set ps \<longleftrightarrow>
               k < num_topics self \<and>
               p = self_var_gamma self a k / (\<Sum>j\<leftarrow>[0..<num_topics self]. self_var_gamma self a j) \<and>
               max min_probability (1 / 10 ^ 8) \<le> p) \<and>
           sorted_wrt (<) (map fst ps) \<and>
           (\<forall>(k, p) \<in> set ps. 1 / 10 ^ 8 \<le> p)"
    using ret mem ord low by blast
qed

theorem get_author_topics_spec_witness:
  "get_author_topics
      \<lparr>num_terms = 1, num_topics = 2, num_authors = 2, num_docs = 1,
        author2doc = [(0, [0]), (1, [0])], doc2author = [(0, [0, 1])],
        alpha = [1/2, 1/2], eta = [1],
        corpus = [[(0, 3)]], iterations = 10, passes = 0, threshold = 1/1000,
        minimum_probability = 1/100, decay = 1/2, offset = 1, eval_every = 1,
        self_var_gamma = (\<lambda>a k. if a = 1 \<and> k = 0 then 3 else 1),
        self_var_lambda = (\<lambda>k v. 1)\<rparr>
      2 (Some 0) = Inl IndexError \<and>
   (\<exists>ps. get_author_topics
      \<lparr>num_terms = 1, num_topics = 2, num_authors = 2, num_docs = 1,
        author2doc = [(0, [0]), (1, [0])], doc2author = [(0, [0, 1])],
        alpha = [1/2, 1/2], eta = [1],
        corpus = [[(0, 3)]], iterations = 10, passes = 0, threshold = 1/1000,
        minimum_probability = 1/100, decay = 1/2, offset = 1, eval_every = 1,
        self_var_gamma = (\<lambda>a k. if a = 1 \<and> k = 0 then 3 else 1),
        self_var_lambda = (\<lambda>k v. 1)\<rparr>
      (- 1) (Some 0) = Inr ps \<and>
      (\<forall>k p. (k, p) \<in> set ps \<longleftrightarrow> k < 2 \<and> p = (if k = 0 then 3 else 1) / 4 \<and> 1 / 10 ^ 8 \<le> p) \<and>
      sorted_wrt (<) (map fst ps) \<and> (\<forall>(k, p) \<in> set ps. 1 / 10 ^ 8 \<le> p))"
proof -
  let ?self = "\<lparr>num_terms = 1, num_topics = 2, num_authors = 2, num_docs = 1,
        author2doc = [(0, [0]), (1, [0])], doc2author = [(0, [0, 1])],
        alpha = [1/2, 1/2], eta = [1],
        corpus = [[(0, 3)]], iterations = 10, passes = 0, threshold = 1/1000,
        minimum_probability = 1/100, decay = 1/2, offset = 1, eval_every = 1,
        self_var_gamma = (\<lambda>a k. if a = 1 \<and> k = 0 then 3 else (1::real)),
        self_var_lambda = (\<lambda>k v. 1)\<rparr>"
  have out: "get_author_topics ?self 2 (Some 0) = Inl IndexError"
    using get_author_topics_spec [of 2 ?self 0 0] by simp
  have inside: "\<exists>ps. get_author_topics ?self (- 1) (Some 0) = Inr ps \<and>
      (\<forall>k p. (k, p) \<in> set ps \<longleftrightarrow> k < 2 \<and> p = (if k = 0 then 3 else 1) / 4 \<and> 1 / 10 ^ 8 \<le> p) \<and>
      sorted_wrt (<) (map fst ps) \<and> (\<forall>(k, p) \<in> set ps. 1 / 10 ^ 8 \<le> p)"
    using get_author_topics_spec [of "- 1" ?self 0 1] by (simp add: upt_rec)
  show ?thesis using out inside by (rule conjI)
qed

subsection \<open>The local variational solver\<close>

lemma sum_list_upt_cong:
  "(\<And>k. k < n \<Longrightarrow> f k = g k) \<Longrightarrow> (\<Sum>k\<leftarrow>[0..<n]. f k) = (\<Sum>k\<leftarrow>[0..<n]. g k)"
  by (rule arg_cong [where f = sum_list]) simp

lemma update_phi_word_var_phi:
  "var_phi (update_phi_word m A v s) =
     (var_phi s)(v := (\<lambda>k. if k < num_topics m
         then phi_unnorm A s v k / (\<Sum>j\<leftarrow>[0..<num_topics m]. phi_unnorm A s v j)
         else var_phi s v k))"
proof -
  have "(\<Sum>k\<leftarrow>[0..<num_topics m]. if k < num_topics m then phi_unnorm A s v k else var_phi s v k)
        = (\<Sum>j\<leftarrow>[0..<num_topics m]. phi_unnorm A s v j)"
    by (rule sum_list_upt_cong) simp
  then show ?thesis
    by (auto simp: update_phi_word_def Let_def fun_eq_iff)
qed

lemma update_phi_word_frame:
  "var_mu (update_phi_word m A v s) = var_mu s"
  "Elogtheta (update_phi_word m A v s) = Elogtheta s"
  "expElogbeta (update_phi_word m A v s) = expElogbeta s"
  "tilde_gamma (update_phi_word m A v s) = tilde_gamma s"
  "tilde_lambda (update_phi_word m A v s) = tilde_lambda s"
  "var_gamma (update_phi_word m A v s) = var_gamma s"
  "var_lambda (update_phi_word m A v s) = var_lambda s"
  "t_step (update_phi_word m A v s) = t_step s"
  "converged (update_phi_word m A v s) = converged s"
  by (simp_all add: update_phi_word_def Let_def)

lemma phi_unnorm_update_phi_word:
  "phi_unnorm A (update_phi_word m A' v s) = phi_unnorm A s"
  by (simp add: phi_unnorm_def update_phi_word_frame fun_eq_iff)

lemma update_phi_frame:
  "var_mu (update_phi m ids A s) = var_mu s"
  "Elogtheta (update_phi m ids A s) = Elogtheta s"
  "expElogbeta (update_phi m ids A s) = expElogbeta s"
  "tilde_gamma (update_phi m ids A s) = tilde_gamma s"
  "tilde_lambda (update_phi m ids A s) = tilde_lambda s"
  "var_gamma (update_phi m ids A s) = var_gamma s"
  "var_lambda (update_phi m ids A s) = var_lambda s"
  "t_step (update_phi m ids A s) = t_step s"
  "converged (update_phi m ids A s) = converged s"
  unfolding update_phi_def
  by (induction ids arbitrary: s; simp add: update_phi_word_frame)+

lemma update_phi_var_phi:
  "var_phi (update_phi m ids A s) v k =
     (if v \<in> set ids \<and> k < num_topics m
      then phi_unnorm A s v k / (\<Sum>j\<leftarrow>[0..<num_topics m]. phi_unnorm A s v j)
      else var_phi s v k)"
  unfolding update_phi_def
proof (induction ids arbitrary: s)
  case Nil
  show ?case by simp
next
  case (Cons x xs)
  show ?case
    by (simp add: Cons.IH phi_unnorm_update_phi_word update_phi_word_var_phi)
qed

lemma fold_assign_keys:
  "fold (\<lambda>a mu. mu((v, a) := e a)) A mu0 (v', a') =
     (if v' = v \<and> a' \<in> set A then e a' else mu0 (v', a'))"
  by (induction A arbitrary: mu0) auto

lemma fold_scale_keys:
  fixes mu0 :: "nat \<times> nat \<Rightarrow> real"
  shows "fold (\<lambda>a mu. mu((v, a) := mu (v, a) * c)) A mu0 (v', a') =
     (if v' = v then mu0 (v', a') * c ^ count_list A a' else mu0 (v', a'))"
  by (induction A arbitrary: mu0) auto

lemma fold_divide_keys:
  fixes mu0 :: "nat \<times> nat \<Rightarrow> real"
  shows "fold (\<lambda>a mu. mu((v, a) := mu (v, a) / S)) A mu0 (v', a') =
     (if v' = v then mu0 (v', a') * (1 / S) ^ count_list A a' else mu0 (v', a'))"
  using fold_scale_keys [of v "1 / S" A mu0 v' a'] by simp

lemma update_mu_word_var_mu:
  "var_mu (update_mu_word m A v s) (v', a) =
     (if v' = v \<and> a \<in> set A
      then mu_unnorm m s v a * (1 / (\<Sum>b\<leftarrow>A. mu_unnorm m s v b)) ^ count_list A a
      else var_mu s (v', a))"
  by (simp add: update_mu_word_def Let_def fold_divide_keys fold_assign_keys)

lemma update_mu_word_frame:
  "var_phi (update_mu_word m A v s) = var_phi s"
  "Elogtheta (update_mu_word m A v s) = Elogtheta s"
  "expElogbeta (update_mu_word m A v s) = expElogbeta s"
  "tilde_gamma (update_mu_word m A v s) = tilde_gamma s"
  "tilde_lambda (update_mu_word m A v s) = tilde_lambda s"
  "var_gamma (update_mu_word m A v s) = var_gamma s"
  "var_lambda (update_mu_word m A v s) = var_lambda s"
  "t_step (update_mu_word m A v s) = t_step s"
  "converged (update_mu_word m A v s) = converged s"
  by (simp_all add: update_mu_word_def Let_def)

lemma mu_unnorm_update_mu_word:
  "mu_unnorm m (update_mu_word m' A v s) = mu_unnorm m s"
  by (simp add: mu_unnorm_def update_mu_word_frame fun_eq_iff)

lemma update_mu_frame:
  "var_phi (update_mu m ids A s) = var_phi s"
  "Elogtheta (update_mu m ids A s) = Elogtheta s"
  "expElogbeta (update_mu m ids A s) = expElogbeta s"
  "tilde_gamma (update_mu m ids A s) = tilde_gamma s"
  "tilde_lambda (update_mu m ids A s) = tilde_lambda s"
  "var_gamma (update_mu m ids A s) = var_gamma s"
  "var_lambda (update_mu m ids A s) = var_lambda s"
  "t_step (update_mu m ids A s) = t_step s"
  "converged (update_mu m ids A s) = converged s"
  unfolding update_mu_def
  by (induction ids arbitrary: s; simp add: update_mu_word_frame)+

lemma update_mu_var_mu:
  "var_mu (update_mu m ids A s) (v, a) =
     (if v \<in> set ids \<and> a \<in> set A
      then mu_unnorm m s v a * (1 / (\<Sum>b\<leftarrow>A. mu_unnorm m s v b)) ^ count_list A a
      else var_mu s (v, a))"
  unfolding update_mu_def
proof (induction ids arbitrary: s)
  case Nil
  show ?case by simp
next
  case (Cons x xs)
  show ?case
    by (simp add: Cons.IH mu_unnorm_update_mu_word update_mu_word_var_mu)
qed

lemma gamma_cell_cong:
  "var_mu s' = var_mu s \<Longrightarrow> var_phi s' = var_phi s \<Longrightarrow> gamma_cell m doc s' = gamma_cell m doc s"
  by (simp add: gamma_cell_def fun_eq_iff)

lemma update_gamma_frame:
  "var_phi (update_gamma m doc A s) = var_phi s"
  "var_mu (update_gamma m doc A s) = var_mu s"
  "Elogtheta (update_gamma m doc A s) = Elogtheta s"
  "expElogbeta (update_gamma m doc A s) = expElogbeta s"
  "tilde_lambda (update_gamma m doc A s) = tilde_lambda s"
  "var_gamma (update_gamma m doc A s) = var_gamma s"
  "var_lambda (update_gamma m doc A s) = var_lambda s"
  "t_step (update_gamma m doc A s) = t_step s"
  "converged (update_gamma m doc A s) = converged s"
  unfolding update_gamma_def
  by (induction A arbitrary: s; simp)+

lemma update_gamma_tilde_gamma:
  "tilde_gamma (update_gamma m doc A s) a k =
     (if a \<in> set A \<and> k < num_topics m then gamma_cell m doc s a k else tilde_gamma s a k)"
proof -
  define step where "step = (\<lambda>a (s'::vstate). s'\<lparr>tilde_gamma := (tilde_gamma s')(a := (\<lambda>k.
      if k < num_topics m then gamma_cell m doc s' a k else tilde_gamma s' a k))\<rparr>)"
  have cell: "gamma_cell m doc (step x s') = gamma_cell m doc s'" for x s'
    unfolding step_def by (rule gamma_cell_cong) simp_all
  have tg: "tilde_gamma (step x s') a k =
      (if a = x \<and> k < num_topics m then gamma_cell m doc s' a k else tilde_gamma s' a k)" for x s'
    unfolding step_def by simp
  have "tilde_gamma (fold step A s) a k =
     (if a \<in> set A \<and> k < num_topics m then gamma_cell m doc s a k else tilde_gamma s a k)"
  proof (induction A arbitrary: s)
    case Nil
    show ?case by simp
  next
    case (Cons x xs)
    show ?case
      unfolding fold_simps o_apply Cons.IH cell tg by auto
  qed
  then show ?thesis by (simp add: update_gamma_def step_def)
qed

lemma lambda_cell_cong:
  "var_phi s' = var_phi s \<Longrightarrow> lambda_cell m doc s' = lambda_cell m doc s"
  by (simp add: lambda_cell_def fun_eq_iff)

lemma lambda_cell_var_lambda_update:
  "lambda_cell m doc (s\<lparr>var_lambda := l\<rparr>) = lambda_cell m doc s"
  by (rule lambda_cell_cong) simp

lemma lambda_inner_fold:
  fixes s :: vstate and m :: OnlineAtVb and doc :: document
  defines "step \<equiv> (\<lambda>k v (s''::vstate). s''\<lparr>var_lambda := (var_lambda s'')(k := (var_lambda s'' k)
        (v := lambda_cell m doc s'' k v))\<rparr>)"
  shows "var_phi (fold (step k) ids s) = var_phi s"
    and "var_lambda (fold (step k) ids s) k' v' =
     (if k' = k \<and> v' \<in> set ids
      then lambda_cell m doc s k v'
      else var_lambda s k' v')"
  unfolding step_def
  by (induction ids arbitrary: s; simp add: lambda_cell_var_lambda_update)+

lemma lambda_outer_fold:
  fixes s :: vstate and m :: OnlineAtVb and doc :: document and ids :: "nat list"
  defines "inner \<equiv> (\<lambda>k (s'::vstate). fold (\<lambda>v s''. s''\<lparr>var_lambda := (var_lambda s'')(k := (var_lambda s'' k)
        (v := lambda_cell m doc s'' k v))\<rparr>) ids s')"
  shows "var_phi (fold inner ks s) = var_phi s \<and>
         var_lambda (fold inner ks s) k v =
          (if k \<in> set ks \<and> v \<in> set ids
           then lambda_cell m doc s k v
           else var_lambda s k v)"
proof (induction ks arbitrary: s)
  case Nil
  show ?case by simp
next
  case (Cons j js)
  have phi: "var_phi (inner j s) = var_phi s"
    unfolding inner_def by (rule lambda_inner_fold(1))
  have lam: "var_lambda (inner j s) k v =
      (if k = j \<and> v \<in> set ids
       then lambda_cell m doc s j v
       else var_lambda s k v)"
    unfolding inner_def by (rule lambda_inner_fold(2))
  have cell: "lambda_cell m doc (inner j s) = lambda_cell m doc s"
    using phi by (rule lambda_cell_cong)
  show ?case
    using Cons.IH [of "inner j s"] phi lam cell by auto
qed

lemma update_lambda_var_phi: "var_phi (update_lambda m doc s) = var_phi s"
  using lambda_outer_fold [of m doc "map fst doc" "[0..<num_topics m]" s]
  by (simp add: update_lambda_def)

lemma update_lambda_var_lambda:
  "var_lambda (update_lambda m doc s) k v =
     (if k < num_topics m \<and> v \<in> fst ` set doc
      then lambda_cell m doc s k v
      else var_lambda s k v)"
  using lambda_outer_fold [of m doc "map fst doc" "[0..<num_topics m]" s k v]
  by (simp add: update_lambda_def)

lemma update_lambda_frame:
  "var_mu (update_lambda m doc s) = var_mu s"
  "Elogtheta (update_lambda m doc s) = Elogtheta s"
  "expElogbeta (update_lambda m doc s) = expElogbeta s"
  "tilde_gamma (update_lambda m doc s) = tilde_gamma s"
  "tilde_lambda (update_lambda m doc s) = tilde_lambda s"
  "var_gamma (update_lambda m doc s) = var_gamma s"
  "t_step (update_lambda m doc s) = t_step s"
  "converged (update_lambda m doc s) = converged s"
proof -
  let ?step = "\<lambda>k v (s''::vstate). s''\<lparr>var_lambda := (var_lambda s'')(k := (var_lambda s'' k)
        (v := lambda_cell m doc s'' k v))\<rparr>"
  have inner: "var_mu (fold (?step k) ids s') = var_mu s' \<and>
      Elogtheta (fold (?step k) ids s') = Elogtheta s' \<and>
      expElogbeta (fold (?step k) ids s') = expElogbeta s' \<and>
      tilde_gamma (fold (?step k) ids s') = tilde_gamma s' \<and>
      tilde_lambda (fold (?step k) ids s') = tilde_lambda s' \<and>
      var_gamma (fold (?step k) ids s') = var_gamma s' \<and>
      t_step (fold (?step k) ids s') = t_step s' \<and>
      converged (fold (?step k) ids s') = converged s'" for k ids and s' :: vstate
    by (induction ids arbitrary: s') simp_all
  have outer: "var_mu (fold (\<lambda>k. fold (?step k) ids) ks s') = var_mu s' \<and>
      Elogtheta (fold (\<lambda>k. fold (?step k) ids) ks s') = Elogtheta s' \<and>
      expElogbeta (fold (\<lambda>k. fold (?step k) ids) ks s') = expElogbeta s' \<and>
      tilde_gamma (fold (\<lambda>k. fold (?step k) ids) ks s') = tilde_gamma s' \<and>
      tilde_lambda (fold (\<lambda>k. fold (?step k) ids) ks s') = tilde_lambda s' \<and>
      var_gamma (fold (\<lambda>k. fold (?step k) ids) ks s') = var_gamma s' \<and>
      t_step (fold (\<lambda>k. fold (?step k) ids) ks s') = t_step s' \<and>
      converged (fold (\<lambda>k. fold (?step k) ids) ks s') = converged s'" for ids ks and s' :: vstate
    by (induction ks arbitrary: s') (simp_all add: inner)
  show "var_mu (update_lambda m doc s) = var_mu s"
    "Elogtheta (update_lambda m doc s) = Elogtheta s"
    "expElogbeta (update_lambda m doc s) = expElogbeta s"
    "tilde_gamma (update_lambda m doc s) = tilde_gamma s"
    "tilde_lambda (update_lambda m doc s) = tilde_lambda s"
    "var_gamma (update_lambda m doc s) = var_gamma s"
    "t_step (update_lambda m doc s) = t_step s"
    "converged (update_lambda m doc s) = converged s"
    using outer [of "map fst doc" "[0..<num_topics m]" s] by (simp_all add: update_lambda_def)
qed

lemma iteration_body_frame:
  "tilde_lambda (iteration_body m doc A s) = tilde_lambda s"
  "var_gamma (iteration_body m doc A s) = var_gamma s"
  "Elogtheta (iteration_body m doc A s) = Elogtheta s"
  "expElogbeta (iteration_body m doc A s) = expElogbeta s"
  "t_step (iteration_body m doc A s) = t_step s"
  "converged (iteration_body m doc A s) = converged s"
  by (simp_all add: iteration_body_def update_lambda_frame update_gamma_frame update_mu_frame
        update_phi_frame)

lemma iteration_body_var_phi:
  "var_phi (iteration_body m doc A s) = var_phi (update_phi m (map fst doc) A s)"
  by (simp add: iteration_body_def update_lambda_var_phi update_gamma_frame update_mu_frame)

lemma iteration_body_var_mu:
  "var_mu (iteration_body m doc A s) =
     var_mu (update_mu m (map fst doc) A (update_phi m (map fst doc) A s))"
  by (simp add: iteration_body_def update_lambda_frame update_gamma_frame)

lemma iteration_body_tilde_gamma:
  "tilde_gamma (iteration_body m doc A s) a k =
     (if a \<in> set A \<and> k < num_topics m
      then gamma_cell m doc (iteration_body m doc A s) a k else tilde_gamma s a k)"
proof -
  let ?s2 = "update_mu m (map fst doc) A (update_phi m (map fst doc) A s)"
  have "gamma_cell m doc (iteration_body m doc A s) = gamma_cell m doc ?s2"
    by (rule gamma_cell_cong)
       (simp_all add: iteration_body_var_mu iteration_body_var_phi update_mu_frame)
  then show ?thesis
    by (simp add: iteration_body_def update_lambda_frame update_gamma_tilde_gamma
          update_mu_frame update_phi_frame)
qed

lemma iteration_body_var_lambda:
  "var_lambda (iteration_body m doc A s) k v =
     (if k < num_topics m \<and> v \<in> fst ` set doc
      then lambda_cell m doc (iteration_body m doc A s) k v
      else var_lambda s k v)"
proof -
  let ?s3 = "update_gamma m doc A (update_mu m (map fst doc) A (update_phi m (map fst doc) A s))"
  have "lambda_cell m doc (iteration_body m doc A s) = lambda_cell m doc ?s3"
    by (rule lambda_cell_cong) (simp add: iteration_body_def update_lambda_var_phi)
  then show ?thesis
    by (simp add: iteration_body_def update_lambda_var_lambda update_gamma_frame update_mu_frame
          update_phi_frame)
qed

lemma cell_of_single: "cell_of [x] = x"
  by (simp add: cell_of_def store_in_cell_def)

lemma tilde_gamma_update:
  assumes "a \<in> set authors_d" and "k < num_topics m"
      and "map_of (author2doc m) a = Some a_doc_ids" and "alpha m = [alpha_0]"
  shows "tilde_gamma (iteration_body m doc authors_d s) a k =
           alpha_0 + real (length a_doc_ids) *
             (\<Sum>(v, cnt)\<leftarrow>doc. cnt * var_mu (iteration_body m doc authors_d s) (v, a)
                                 * var_phi (iteration_body m doc authors_d s) v k)"
  using assms
  by (simp add: iteration_body_tilde_gamma gamma_cell_def author_num_docs_def cell_of_single)

lemma sum_list_divide:
  fixes f :: "'a \<Rightarrow> real"
  shows "(\<Sum>x\<leftarrow>xs. f x / c) = (\<Sum>x\<leftarrow>xs. f x) / c"
  by (induction xs) (simp_all add: add_divide_distrib)

lemma count_list_distinct:
  "distinct xs \<Longrightarrow> x \<in> set xs \<Longrightarrow> count_list xs x = 1"
  by (induction xs) auto

text \<open>
  C5: in every round of the local solver and for each word \<open>v\<close> of the document, the row
  \<open>phi[v, .]\<close> sums to 1 over the topics after the phi update, and the weights
  \<open>mu[v, a]\<close> sum to 1 over the document's authors after the mu update, when the
  unnormalised values have a non-zero sum. The authors of a document are a set: the
  list \<open>authors_d\<close> has no repetition. Both sums are still 1 when the round ends.
\<close>

theorem phi_mu_normalised:
  assumes "v \<in> fst ` set doc"
  shows "((\<Sum>k\<leftarrow>[0..<num_topics m]. phi_unnorm authors_d s v k) \<noteq> 0 \<longrightarrow>
            (\<Sum>k\<leftarrow>[0..<num_topics m]. var_phi (update_phi m (map fst doc) authors_d s) v k) = 1 \<and>
            (\<Sum>k\<leftarrow>[0..<num_topics m]. var_phi (iteration_body m doc authors_d s) v k) = 1) \<and>
         (distinct authors_d \<and>
          (\<Sum>a\<leftarrow>authors_d. mu_unnorm m (update_phi m (map fst doc) authors_d s) v a) \<noteq> 0 \<longrightarrow>
            (\<Sum>a\<leftarrow>authors_d. var_mu (update_mu m (map fst doc) authors_d
                                  (update_phi m (map fst doc) authors_d s)) (v, a)) = 1 \<and>
            (\<Sum>a\<leftarrow>authors_d. var_mu (iteration_body m doc authors_d s) (v, a)) = 1)"
proof (intro conjI impI)
  let ?s1 = "update_phi m (map fst doc) authors_d s"
  let ?s2 = "update_mu m (map fst doc) authors_d ?s1"
  assume nz: "(\<Sum>k\<leftarrow>[0..<num_topics m]. phi_unnorm authors_d s v k) \<noteq> 0"
  have "(\<Sum>k\<leftarrow>[0..<num_topics m]. var_phi ?s1 v k) =
        (\<Sum>k\<leftarrow>[0..<num_topics m]. phi_unnorm authors_d s v k /
            (\<Sum>j\<leftarrow>[0..<num_topics m]. phi_unnorm authors_d s v j))"
    using assms(1) by (intro sum_list_upt_cong) (simp add: update_phi_var_phi)
  also have "\<dots> = 1" using nz by (simp add: sum_list_divide)
  finally show phi1: "(\<Sum>k\<leftarrow>[0..<num_topics m]. var_phi ?s1 v k) = 1" .
  then show "(\<Sum>k\<leftarrow>[0..<num_topics m]. var_phi (iteration_body m doc authors_d s) v k) = 1"
    by (simp add: iteration_body_var_phi)
next
  let ?s1 = "update_phi m (map fst doc) authors_d s"
  let ?s2 = "update_mu m (map fst doc) authors_d ?s1"
  assume h: "distinct authors_d \<and> (\<Sum>a\<leftarrow>authors_d. mu_unnorm m ?s1 v a) \<noteq> 0"
  have "(\<Sum>a\<leftarrow>authors_d. var_mu ?s2 (v, a)) =
        (\<Sum>a\<leftarrow>authors_d. mu_unnorm m ?s1 v a / (\<Sum>b\<leftarrow>authors_d. mu_unnorm m ?s1 v b))"
    using assms(1) h
    by (intro arg_cong [where f = sum_list] map_cong refl)
       (simp add: update_mu_var_mu count_list_distinct)
  also have "\<dots> = 1" using h by (simp add: sum_list_divide)
  finally show mu1: "(\<Sum>a\<leftarrow>authors_d. var_mu ?s2 (v, a)) = 1" .
  then show "(\<Sum>a\<leftarrow>authors_d. var_mu (iteration_body m doc authors_d s) (v, a)) = 1"
    by (simp add: iteration_body_var_mu)
qed

subsection \<open>The blend and the frame of a document\<close>

lemma iterate_frame:
  "tilde_lambda (iterate m doc A i n s) = tilde_lambda s"
  "var_gamma (iterate m doc A i n s) = var_gamma s"
  "Elogtheta (iterate m doc A i n s) = Elogtheta s"
  "expElogbeta (iterate m doc A i n s) = expElogbeta s"
  "t_step (iterate m doc A i n s) = t_step s"
  by (induction n arbitrary: i s; simp add: Let_def iteration_body_frame)+

lemma iterate_var_lambda_frame:
  "v \<notin> fst ` set doc \<Longrightarrow> var_lambda (iterate m doc A i n s) k v = var_lambda s k v"
  by (induction n arbitrary: i s) (simp_all add: Let_def iteration_body_var_lambda)

lemma blend_var_lambda_frame:
  "v \<notin> set ids \<Longrightarrow> var_lambda (blend m de ids s) k v = var_lambda s k v"
  by (simp add: blend_def Let_def)

text \<open>
  C6: the whole processing of one document (the rounds of the local solver, then the
  blend) leaves every column of the global \<open>lambda\<close> whose word id does not occur in
  the document as it was; only the columns of the document's word ids can change.
\<close>

theorem doc_step_lambda_frame:
  assumes "doc_step m de d doc s = Inr s'" and "v \<notin> fst ` set doc"
  shows "var_lambda s' k v = var_lambda s k v"
proof -
  obtain authors_d where
    s': "s' = blend m de (map fst doc)
           (iterate m doc authors_d 0 (iterations m) (s\<lparr>var_mu := init_mu (map fst doc) authors_d\<rparr>))"
    using assms(1) by (auto simp: doc_step_def Let_def split: option.splits)
  show ?thesis
    using assms(2) unfolding s'
    by (simp add: blend_var_lambda_frame iterate_var_lambda_frame)
qed

theorem doc_step_lambda_frame_witness:
  "\<exists>s'. doc_step
      \<lparr>num_terms = 2, num_topics = 1, num_authors = 1, num_docs = 1,
        author2doc = [(0, [0])], doc2author = [(0, [0])], alpha = [1], eta = [1/2, 1/2],
        corpus = [[(0, 3)]], iterations = 0, passes = 1, threshold = 1/1000,
        minimum_probability = 1/100, decay = 1/2, offset = 1, eval_every = 1,
        self_var_gamma = (\<lambda>a k. 0), self_var_lambda = (\<lambda>k v. 0)\<rparr>
      (\<lambda>rows cols M i j. 0) 0 [(0, 3)]
      \<lparr>var_gamma = (\<lambda>a k. 1), var_lambda = (\<lambda>k v. 2), tilde_gamma = (\<lambda>a k. 1),
        tilde_lambda = (\<lambda>k v. 1), var_phi = (\<lambda>v k. 0), var_mu = (\<lambda>va. 0),
        Elogtheta = (\<lambda>a k. 0), Elogbeta = (\<lambda>k v. 0), expElogbeta = (\<lambda>k v. 1),
        t_step = 0, converged = 0\<rparr> = Inr s' \<and>
      (1::nat) \<notin> fst ` set [(0::nat, 3::real)] \<and> var_lambda s' 0 1 = 2 \<and> var_lambda s' 0 0 = 1"
proof -
  let ?m = "\<lparr>num_terms = 2, num_topics = 1, num_authors = 1, num_docs = 1,
        author2doc = [(0, [0])], doc2author = [(0, [0])], alpha = [1], eta = [1/2, 1/2],
        corpus = [[(0, 3)]], iterations = 0, passes = 1, threshold = 1/1000,
        minimum_probability = 1/100, decay = 1/2, offset = 1, eval_every = 1,
        self_var_gamma = (\<lambda>a k. 0), self_var_lambda = (\<lambda>k v. 0)\<rparr>"
  let ?s = "\<lparr>var_gamma = (\<lambda>a k. 1), var_lambda = (\<lambda>k v. 2), tilde_gamma = (\<lambda>a k. 1),
        tilde_lambda = (\<lambda>k v. 1), var_phi = (\<lambda>v k. 0), var_mu = (\<lambda>va. 0),
        Elogtheta = (\<lambda>a k. 0), Elogbeta = (\<lambda>k v. 0), expElogbeta = (\<lambda>k v. 1),
        t_step = 0, converged = 0\<rparr>"
  have "\<exists>s'. doc_step ?m (\<lambda>rows cols M i j. 0) 0 [(0, 3)] ?s = Inr s'"
    by (simp add: doc_step_def doc_errors_def Let_def)
  then obtain s' where s': "doc_step ?m (\<lambda>rows cols M i j. 0) 0 [(0, 3)] ?s = Inr s'"
    by blast
  have "var_lambda s' 0 1 = var_lambda ?s 0 1"
    using s' by (rule doc_step_lambda_frame) simp
  moreover have "var_lambda s' 0 0 = 1"
    using s' by (auto simp: doc_step_def doc_errors_def Let_def blend_def rho_def)
  ultimately show ?thesis using s' by simp
qed

subsection \<open>Concrete rounds\<close>

theorem phi_mu_normalised_witness:
  "(0::nat) \<in> fst ` set [(0::nat, 3::real)] \<and> distinct [0::nat, 1] \<and>
   (\<Sum>k\<leftarrow>[0..<1]. var_phi (update_phi
      \<lparr>num_terms = 1, num_topics = 1, num_authors = 2, num_docs = 1,
        author2doc = [(0, [0]), (1, [0, 1])], doc2author = [(0, [0, 1]), (1, [1])],
        alpha = [1], eta = [1],
        corpus = [[(0, 3)]], iterations = 1, passes = 1, threshold = 1/1000,
        minimum_probability = 1/100, decay = 1/2, offset = 1, eval_every = 1,
        self_var_gamma = (\<lambda>a k. 0), self_var_lambda = (\<lambda>k v. 0)\<rparr>
      [0] [0, 1]
      \<lparr>var_gamma = (\<lambda>a k. 1), var_lambda = (\<lambda>k v. 1), tilde_gamma = (\<lambda>a k. 1),
        tilde_lambda = (\<lambda>k v. 1), var_phi = (\<lambda>v k. 0), var_mu = (\<lambda>va. 1/2),
        Elogtheta = (\<lambda>a k. 0), Elogbeta = (\<lambda>k v. 0), expElogbeta = (\<lambda>k v. 1),
        t_step = 0, converged = 0\<rparr>) 0 k) = 1 \<and>
   (\<Sum>a\<leftarrow>[0, 1]. var_mu (iteration_body
      \<lparr>num_terms = 1, num_topics = 1, num_authors = 2, num_docs = 1,
        author2doc = [(0, [0]), (1, [0, 1])], doc2author = [(0, [0, 1]), (1, [1])],
        alpha = [1], eta = [1],
        corpus = [[(0, 3)]], iterations = 1, passes = 1, threshold = 1/1000,
        minimum_probability = 1/100, decay = 1/2, offset = 1, eval_every = 1,
        self_var_gamma = (\<lambda>a k. 0), self_var_lambda = (\<lambda>k v. 0)\<rparr>
      [(0, 3)] [0, 1]
      \<lparr>var_gamma = (\<lambda>a k. 1), var_lambda = (\<lambda>k v. 1), tilde_gamma = (\<lambda>a k. 1),
        tilde_lambda = (\<lambda>k v. 1), var_phi = (\<lambda>v k. 0), var_mu = (\<lambda>va. 1/2),
        Elogtheta = (\<lambda>a k. 0), Elogbeta = (\<lambda>k v. 0), expElogbeta = (\<lambda>k v. 1),
        t_step = 0, converged = 0\<rparr>) (0, a)) = 1"
  using phi_mu_normalised [where v = 0 and doc = "[(0, 3)]" and authors_d = "[0, 1]"
      and m = "\<lparr>num_terms = 1, num_topics = 1, num_authors = 2, num_docs = 1,
        author2doc = [(0, [0]), (1, [0, 1])], doc2author = [(0, [0, 1]), (1, [1])],
        alpha = [1], eta = [1],
        corpus = [[(0, 3)]], iterations = 1, passes = 1, threshold = 1/1000,
        minimum_probability = 1/100, decay = 1/2, offset = 1, eval_every = 1,
        self_var_gamma = (\<lambda>a k. 0), self_var_lambda = (\<lambda>k v. 0)\<rparr>"
      and s = "\<lparr>var_gamma = (\<lambda>a k. 1), var_lambda = (\<lambda>k v. 1), tilde_gamma = (\<lambda>a k. 1),
        tilde_lambda = (\<lambda>k v. 1), var_phi = (\<lambda>v k. 0), var_mu = (\<lambda>va. 1/2),
        Elogtheta = (\<lambda>a k. 0), Elogbeta = (\<lambda>k v. 0), expElogbeta = (\<lambda>k v. 1),
        t_step = 0, converged = 0\<rparr>"]
  by (simp add: phi_unnorm_def mu_unnorm_def update_phi_frame)

text \<open>
  C1: the claim asks that every round sets \<open>tilde_lambda[k, v]\<close> to
  \<open>eta + num_docs * count(v) * phi[v, k]\<close> and that this \<open>tilde_lambda\<close> is blended into
  the global \<open>lambda\<close>. Line 252 writes the value into \<^verbatim>\<open>var_lambda[k, v]\<close> instead (the
  commented-out line 248 and the comment of lines 272-273 name \<^verbatim>\<open>tilde_lambda\<close>), and no
  round changes \<open>tilde_lambda\<close> (\<open>iteration_body_frame\<close>). For one document \<open>[(0, 3)]\<close>
  by one author, one topic and one term: after the round \<open>tilde_lambda[0, 0]\<close> is still
  its initial value 1 while the claimed value 4 sits in the global \<open>lambda[0, 0]\<close>; the
  blend with \<open>rho(0) = 1\<close> then overwrites it with the stale 1, so the constructed
  object has \<open>lambda[0, 0] = 1\<close>, where the claim gives 4.
\<close>

theorem tilde_lambda_not_updated:
  "tilde_lambda (iteration_body
      \<lparr>num_terms = 1, num_topics = 1, num_authors = 1, num_docs = 1,
        author2doc = [(0, [0])], doc2author = [(0, [0])], alpha = [1], eta = [1],
        corpus = [[(0, 3)]], iterations = 1, passes = 1, threshold = 1/1000,
        minimum_probability = 1/100, decay = 1/2, offset = 1, eval_every = 1,
        self_var_gamma = (\<lambda>a k. 0), self_var_lambda = (\<lambda>k v. 0)\<rparr>
      [(0, 3)] [0]
      \<lparr>var_gamma = (\<lambda>a k. 1), var_lambda = (\<lambda>k v. 1), tilde_gamma = (\<lambda>a k. 1),
        tilde_lambda = (\<lambda>k v. 1), var_phi = (\<lambda>v k. 0), var_mu = init_mu [0] [0],
        Elogtheta = (\<lambda>a k. 0), Elogbeta = (\<lambda>k v. 0), expElogbeta = (\<lambda>k v. 1),
        t_step = 0, converged = 0\<rparr>) 0 0 = 1 \<and>
   var_lambda (iteration_body
      \<lparr>num_terms = 1, num_topics = 1, num_authors = 1, num_docs = 1,
        author2doc = [(0, [0])], doc2author = [(0, [0])], alpha = [1], eta = [1],
        corpus = [[(0, 3)]], iterations = 1, passes = 1, threshold = 1/1000,
        minimum_probability = 1/100, decay = 1/2, offset = 1, eval_every = 1,
        self_var_gamma = (\<lambda>a k. 0), self_var_lambda = (\<lambda>k v. 0)\<rparr>
      [(0, 3)] [0]
      \<lparr>var_gamma = (\<lambda>a k. 1), var_lambda = (\<lambda>k v. 1), tilde_gamma = (\<lambda>a k. 1),
        tilde_lambda = (\<lambda>k v. 1), var_phi = (\<lambda>v k. 0), var_mu = init_mu [0] [0],
        Elogtheta = (\<lambda>a k. 0), Elogbeta = (\<lambda>k v. 0), expElogbeta = (\<lambda>k v. 1),
        t_step = 0, converged = 0\<rparr>) 0 0 = 4 \<and>
   (case construct (\<lambda>docs. 0) (\<lambda>rows cols M i j. 0) (\<lambda>a k. 1) (\<lambda>k v. 1)
      \<lparr>kw_corpus = Some [[(0, 3)]], kw_num_topics = 1, kw_id2word = Some [(0, ''w'')],
        kw_author2doc = Some [(0, [0])], kw_doc2author = None,
        kw_threshold = 1/1000, kw_minimum_probability = 1/100, kw_iterations = 1,
        kw_passes = 1, kw_decay = 1/2, kw_offset = 1, kw_eval_every = 1\<rparr> of
      Inl e \<Rightarrow> False
    | Inr m \<Rightarrow> self_var_lambda m 0 0 = 1)"
  by (simp add: iteration_body_frame iteration_body_var_lambda iteration_body_var_phi
        update_phi_var_phi phi_unnorm_def doc_count_def init_mu_def lambda_cell_def cell_of_single
        construct_def vocabulary_size_def derive_doc2author_def inference_def Let_def
        inherited_num_topics_def bound_errors_def broadcastable_def
        word_bound_doc_errors_def doc_step_def doc_errors_def round_errors_def store_in_cell_def
        init_state_def blend_def rho_def)

text \<open>
  C2: the claim asks that every round sets \<open>tilde_gamma[a, k]\<close>, for each author of the
  document and each topic, to the prior \<open>alpha\<close> plus \<open>|author2doc[a]|\<close> times the sum of
  \<open>count(v) * mu[v, a] * phi[v, k]\<close>. Line 245 adds the whole vector \<^verbatim>\<open>self.alpha\<close>, one
  entry per topic, to the cell. With one topic the cell gets the claimed value
  (\<open>tilde_gamma_update\<close>); with two topics or more numpy raises \<^verbatim>\<open>ValueError\<close> at the first
  cell, before the prior is added to any cell: the constructor called on one document
  \<open>[(0, 3)]\<close> by one author with two topics ends in that error.
\<close>

theorem tilde_gamma_update_raises:
  "construct dict_from_corpus_len dirichlet_expectation init_gamma init_lambda
      \<lparr>kw_corpus = Some [[(0, 3)]], kw_num_topics = 2, kw_id2word = Some [(0, ''w'')],
        kw_author2doc = Some [(0, [0])], kw_doc2author = None,
        kw_threshold = 1/1000, kw_minimum_probability = 1/100, kw_iterations = 1,
        kw_passes = 1, kw_decay = 1/2, kw_offset = 1, kw_eval_every = 1\<rparr>
     = Inl (ValueError ''setting an array element with a sequence.'')"
  by (simp add: construct_def vocabulary_size_def derive_doc2author_def inference_def Let_def
        inherited_num_topics_def bound_errors_def broadcastable_def
        word_bound_doc_errors_def doc_step_def doc_errors_def round_errors_def store_in_cell_def
        numeral_2_eq_2)

subsection \<open>Positivity of the Dirichlet parameters\<close>

lemma phi_unnorm_nonneg:
  "(\<forall>k v. 0 \<le> expElogbeta s k v) \<Longrightarrow> 0 \<le> phi_unnorm A s v k"
  by (simp add: phi_unnorm_def)

lemma update_phi_nonneg:
  assumes "\<forall>k v. 0 \<le> expElogbeta s k v" and "v \<in> set ids" and "k < num_topics m"
  shows "0 \<le> var_phi (update_phi m ids A s) v k"
proof -
  have "0 \<le> (\<Sum>j\<leftarrow>[0..<num_topics m]. phi_unnorm A s v j)"
    using assms(1) by (intro sum_list_nonneg) (auto simp: phi_unnorm_nonneg)
  then show ?thesis
    using assms by (simp add: update_phi_var_phi phi_unnorm_nonneg)
qed

lemma update_mu_nonneg:
  assumes "v \<in> set ids" and "a \<in> set A"
  shows "0 \<le> var_mu (update_mu m ids A s) (v, a)"
proof -
  have "0 \<le> (\<Sum>b\<leftarrow>A. mu_unnorm m s v b)"
    by (intro sum_list_nonneg) (auto simp: mu_unnorm_def)
  moreover have "0 \<le> mu_unnorm m s v a" by (simp add: mu_unnorm_def)
  ultimately show ?thesis
    using assms by (simp add: update_mu_var_mu)
qed

lemma cells_sum_nonneg:
  assumes "\<forall>k v. 0 \<le> expElogbeta s k v" and "\<forall>(v, cnt)\<in>set doc. 0 \<le> cnt"
      and "a \<in> set A" and "k < num_topics m"
  shows "0 \<le> (\<Sum>(v, cnt)\<leftarrow>doc. cnt * var_mu (iteration_body m doc A s) (v, a)
                                   * var_phi (iteration_body m doc A s) v k)"
proof -
  let ?s' = "iteration_body m doc A s"
  show ?thesis
  proof (intro sum_list_nonneg)
    fix x assume "x \<in> set (map (\<lambda>(v, cnt). cnt * var_mu ?s' (v, a) * var_phi ?s' v k) doc)"
    then obtain v cnt where vc: "(v, cnt) \<in> set doc"
      and x: "x = cnt * var_mu ?s' (v, a) * var_phi ?s' v k" by auto
    have v: "v \<in> set (map fst doc)" using vc by force
    have "0 \<le> cnt" using assms(2) vc by auto
    moreover have "0 \<le> var_mu ?s' (v, a)"
      unfolding iteration_body_var_mu using v assms(3) by (rule update_mu_nonneg)
    moreover have "0 \<le> var_phi ?s' v k"
      unfolding iteration_body_var_phi using assms(1) v assms(4) by (rule update_phi_nonneg)
    ultimately show "0 \<le> x" unfolding x by simp
  qed
qed

lemma gamma_cell_pos:
  assumes "\<forall>k v. 0 \<le> expElogbeta s k v" and "\<forall>(v, cnt)\<in>set doc. 0 \<le> cnt"
      and "a \<in> set A" and "k < num_topics m" and "alpha m = [x]" and "0 < x"
  shows "0 < gamma_cell m doc (iteration_body m doc A s) a k"
  using cells_sum_nonneg [OF assms(1-4)] assms(5,6)
  by (simp add: gamma_cell_def cell_of_single add_nonneg_pos)

lemma doc_count_nonneg:
  assumes "\<forall>(v, cnt)\<in>set doc. 0 \<le> cnt"
  shows "0 \<le> doc_count doc v"
proof (cases "map_of (rev doc) v")
  case None
  then show ?thesis by (simp add: doc_count_def)
next
  case (Some c)
  then have "(v, c) \<in> set doc" by (auto dest: map_of_SomeD)
  then show ?thesis using assms Some by (auto simp: doc_count_def)
qed

lemma lambda_cell_pos:
  assumes "\<forall>k v. 0 \<le> expElogbeta s k v" and "\<forall>(v, cnt)\<in>set doc. 0 \<le> cnt"
      and "v \<in> fst ` set doc" and "k < num_topics m" and "eta m = [y]" and "0 < y"
  shows "0 < lambda_cell m doc (iteration_body m doc A s) k v"
proof -
  have "v \<in> set (map fst doc)" using assms(3) by simp
  then have "0 \<le> var_phi (iteration_body m doc A s) v k"
    unfolding iteration_body_var_phi using assms(1,4) by (intro update_phi_nonneg)
  then have "0 \<le> real (num_docs m) * doc_count doc v * var_phi (iteration_body m doc A s) v k"
    using doc_count_nonneg [OF assms(2), of v] by simp
  then show ?thesis
    using assms(5,6) by (simp add: lambda_cell_def cell_of_single add_pos_nonneg)
qed

lemma iteration_body_positive:
  assumes "\<forall>k v. 0 \<le> expElogbeta s k v" and "\<forall>(v, cnt)\<in>set doc. 0 \<le> cnt"
      and "A = [] \<or> num_topics m = 0 \<or> (\<exists>x. alpha m = [x] \<and> 0 < x)"
      and "doc = [] \<or> num_topics m = 0 \<or> (\<exists>y. eta m = [y] \<and> 0 < y)"
      and "strictly_positive (num_authors m) (num_topics m) (tilde_gamma s)"
      and "strictly_positive (num_topics m) (num_terms m) (var_lambda s)"
  shows "strictly_positive (num_authors m) (num_topics m) (tilde_gamma (iteration_body m doc A s))"
    and "strictly_positive (num_topics m) (num_terms m) (var_lambda (iteration_body m doc A s))"
proof -
  show "strictly_positive (num_authors m) (num_topics m) (tilde_gamma (iteration_body m doc A s))"
    unfolding strictly_positive_def
  proof (intro allI impI)
    fix a k assume ak: "a < num_authors m" "k < num_topics m"
    show "0 < tilde_gamma (iteration_body m doc A s) a k"
    proof (cases "a \<in> set A")
      case True
      then obtain x where "alpha m = [x]" "0 < x" using assms(3) ak(2) by auto
      then show ?thesis
        using gamma_cell_pos [OF assms(1,2) True ak(2)] True ak(2)
        by (simp add: iteration_body_tilde_gamma)
    next
      case False
      then show ?thesis
        using ak assms(5) by (simp add: iteration_body_tilde_gamma strictly_positive_def)
    qed
  qed
  show "strictly_positive (num_topics m) (num_terms m) (var_lambda (iteration_body m doc A s))"
    unfolding strictly_positive_def
  proof (intro allI impI)
    fix k v assume kv: "k < num_topics m" "v < num_terms m"
    show "0 < var_lambda (iteration_body m doc A s) k v"
    proof (cases "v \<in> fst ` set doc")
      case True
      then obtain y where "eta m = [y]" "0 < y" using assms(4) kv(1) by auto
      then show ?thesis
        using lambda_cell_pos [OF assms(1,2) True kv(1)] True kv(1)
        by (simp add: iteration_body_var_lambda)
    next
      case False
      then show ?thesis
        using kv assms(6) by (simp add: iteration_body_var_lambda strictly_positive_def)
    qed
  qed
qed

lemma iterate_positive:
  assumes "\<forall>k v. 0 \<le> expElogbeta s k v" and "\<forall>(v, cnt)\<in>set doc. 0 \<le> cnt"
      and "A = [] \<or> num_topics m = 0 \<or> (\<exists>x. alpha m = [x] \<and> 0 < x)"
      and "doc = [] \<or> num_topics m = 0 \<or> (\<exists>y. eta m = [y] \<and> 0 < y)"
      and "strictly_positive (num_authors m) (num_topics m) (tilde_gamma s)"
      and "strictly_positive (num_topics m) (num_terms m) (var_lambda s)"
  shows "strictly_positive (num_authors m) (num_topics m) (tilde_gamma (iterate m doc A i n s)) \<and>
         strictly_positive (num_topics m) (num_terms m) (var_lambda (iterate m doc A i n s))"
  using assms(1,5,6)
proof (induction n arbitrary: i s)
  case 0
  then show ?case by simp
next
  case (Suc n)
  let ?s' = "iteration_body m doc A s"
  have e: "\<forall>k v. 0 \<le> expElogbeta ?s' k v"
    using Suc.prems(1) by (simp add: iteration_body_frame)
  have p: "strictly_positive (num_authors m) (num_topics m) (tilde_gamma ?s')"
          "strictly_positive (num_topics m) (num_terms m) (var_lambda ?s')"
    using iteration_body_positive [OF Suc.prems(1) assms(2,3,4) Suc.prems(2,3)] by simp_all
  show ?case
    using Suc.IH [OF e p] p by (simp add: Let_def)
qed

lemma convex_pos:
  fixes r x y :: real
  assumes "0 < r" and "r \<le> 1" and "0 < x" and "0 < y"
  shows "0 < (1 - r) * x + r * y"
proof -
  have "0 \<le> (1 - r) * x" using assms by simp
  moreover have "0 < r * y" using assms by simp
  ultimately show ?thesis by (rule add_nonneg_pos)
qed

lemma blend_positive:
  assumes "1 \<le> offset m" and "0 \<le> decay m"
      and "strictly_positive (num_authors m) (num_topics m) (var_gamma s)"
      and "strictly_positive (num_topics m) (num_terms m) (var_lambda s)"
      and "strictly_positive (num_authors m) (num_topics m) (tilde_gamma s)"
      and "strictly_positive (num_topics m) (num_terms m) (tilde_lambda s)"
  shows "positive_state m (blend m de ids s)"
proof -
  let ?r = "rho (offset m) (decay m) (t_step s)"
  have r: "0 < ?r" "?r \<le> 1"
    using assms(1,2) by (auto intro!: rho_pos rho_le_one)
  show ?thesis
    using assms(3-6) convex_pos [OF r]
    by (auto simp: positive_state_def strictly_positive_def blend_def Let_def)
qed

lemma store_in_cell_Inr: "store_in_cell xs = Inr x \<Longrightarrow> xs = [x]"
  by (auto simp: store_in_cell_def split: list.splits)

lemma gamma_errors_single:
  "gamma_errors m A = None \<Longrightarrow> A \<noteq> [] \<Longrightarrow> \<exists>x. alpha m = [x]"
  by (cases A) (auto split: if_splits sum.splits dest: store_in_cell_Inr)

lemma round_errors_single:
  assumes "round_errors m doc A = None"
  shows "A = [] \<or> num_topics m = 0 \<or> (\<exists>x. alpha m = [x])"
    and "doc = [] \<or> num_topics m = 0 \<or> (\<exists>y. eta m = [y])"
  using assms
  by (auto simp: round_errors_def Let_def
           split: if_splits option.splits sum.splits
           dest: gamma_errors_single store_in_cell_Inr)

lemma doc_step_positive:
  assumes "1 \<le> offset m" and "0 \<le> decay m"
      and "\<forall>x\<in>set (alpha m). 0 < x" and "\<forall>y\<in>set (eta m). 0 < y"
      and "\<forall>(v, cnt)\<in>set doc. 0 \<le> cnt"
      and "positive_state m s" and "doc_step m de d doc s = Inr s'"
  shows "positive_state m s'"
proof -
  obtain authors_d where
    s': "s' = blend m de (map fst doc)
           (iterate m doc authors_d 0 (iterations m) (s\<lparr>var_mu := init_mu (map fst doc) authors_d\<rparr>))"
    and rounds: "iterations m = 0 \<or> round_errors m doc authors_d = None"
    using assms(7)
    by (auto simp: doc_step_def doc_errors_def Let_def split: option.splits if_splits)
  let ?s1 = "s\<lparr>var_mu := init_mu (map fst doc) authors_d\<rparr>"
  let ?s2 = "iterate m doc authors_d 0 (iterations m) ?s1"
  have inv: "strictly_positive (num_authors m) (num_topics m) (var_gamma s)"
    "strictly_positive (num_topics m) (num_terms m) (var_lambda s)"
    "strictly_positive (num_authors m) (num_topics m) (tilde_gamma s)"
    "strictly_positive (num_topics m) (num_terms m) (tilde_lambda s)"
    "\<forall>k v. 0 \<le> expElogbeta s k v"
    using assms(6) by (simp_all add: positive_state_def)
  have local: "strictly_positive (num_authors m) (num_topics m) (tilde_gamma ?s2) \<and>
        strictly_positive (num_topics m) (num_terms m) (var_lambda ?s2)"
  proof (cases "iterations m = 0")
    case True
    then show ?thesis using inv by simp
  next
    case False
    then have r: "round_errors m doc authors_d = None" using rounds by simp
    have ga: "authors_d = [] \<or> num_topics m = 0 \<or> (\<exists>x. alpha m = [x] \<and> 0 < x)"
      using round_errors_single(1) [OF r] assms(3) by auto
    have la: "doc = [] \<or> num_topics m = 0 \<or> (\<exists>y. eta m = [y] \<and> 0 < y)"
      using round_errors_single(2) [OF r] assms(4) by auto
    show ?thesis
      using inv by (intro iterate_positive assms(5) ga la) simp_all
  qed
  then show ?thesis
    unfolding s' using inv
    by (intro blend_positive assms(1,2)) (simp_all add: iterate_frame)
qed

lemma corpus_loop_positive:
  assumes "1 \<le> offset m" and "0 \<le> decay m"
      and "\<forall>x\<in>set (alpha m). 0 < x" and "\<forall>y\<in>set (eta m). 0 < y"
      and "\<forall>doc\<in>set docs. \<forall>(v, cnt)\<in>set doc. 0 \<le> cnt"
      and "positive_state m s" and "corpus_loop m de d docs s = Inr s'"
  shows "positive_state m s'"
  using assms(5,6,7)
proof (induction docs arbitrary: d s)
  case Nil
  then show ?case by simp
next
  case (Cons doc docs)
  from Cons.prems(3) obtain s1 where
    s1: "doc_step m de d doc s = Inr s1" and rest: "corpus_loop m de (Suc d) docs s1 = Inr s'"
    by (auto split: sum.splits)
  have "positive_state m s1"
    using assms(1-4) _ Cons.prems(2) s1 by (rule doc_step_positive) (use Cons.prems(1) in simp)
  then show ?case
    using Cons.IH [of s1 "Suc d"] Cons.prems(1) rest by simp
qed

lemma passes_loop_positive:
  assumes "1 \<le> offset m" and "0 \<le> decay m"
      and "\<forall>x\<in>set (alpha m). 0 < x" and "\<forall>y\<in>set (eta m). 0 < y"
      and "\<forall>doc\<in>set docs. \<forall>(v, cnt)\<in>set doc. 0 \<le> cnt"
      and "positive_state m s" and "passes_loop m de docs p n s = Inr s'"
  shows "positive_state m s'"
  using assms(6,7)
proof (induction n arbitrary: p s)
  case 0
  then show ?case by simp
next
  case (Suc n)
  from Suc.prems(2) obtain s1 where
    s1: "corpus_loop m de 0 docs (s\<lparr>converged := 0\<rparr>) = Inr s1"
    and rest: "passes_loop m de docs (Suc p) n s1 = Inr s'"
    by (auto split: sum.splits if_splits option.splits)
  have ps: "positive_state m (s\<lparr>converged := 0\<rparr>)"
    using Suc.prems(1) by (simp add: positive_state_def)
  have "positive_state m s1"
    by (rule corpus_loop_positive [OF assms(1-5) ps s1])
  then show ?case using rest by (rule Suc.IH)
qed

lemma init_state_positive:
  assumes "strictly_positive (num_authors m) (num_topics m) init_gamma"
      and "strictly_positive (num_topics m) (num_terms m) init_lambda"
  shows "positive_state m (init_state m de init_gamma init_lambda)"
  using assms by (simp add: positive_state_def init_state_def Let_def)

text \<open>
  C3, as stated, fails: nothing keeps the learning rate below 1. With \<open>offset = 1/2\<close> and
  \<open>decay = 1\<close> the first rate is \<open>rho(0) = 2\<close>, the blend weighs the old value with
  \<open>1 - rho = -1\<close>, and from the strictly positive initial matrices (all entries 1) the
  run over the single document \<open>[(0, 3)]\<close> ends with \<open>lambda[0, 0] = -2\<close>.
\<close>

theorem positivity_counterexample:
  "strictly_positive 1 1 (\<lambda>a k. 1) \<and>
   (case construct (\<lambda>docs. 0) (\<lambda>rows cols M i j. 0) (\<lambda>a k. 1) (\<lambda>k v. 1)
      \<lparr>kw_corpus = Some [[(0, 3)]], kw_num_topics = 1, kw_id2word = Some [(0, ''w'')],
        kw_author2doc = Some [(0, [0])], kw_doc2author = None,
        kw_threshold = 1/1000, kw_minimum_probability = 1/100, kw_iterations = 1,
        kw_passes = 1, kw_decay = 1, kw_offset = 1/2, kw_eval_every = 1\<rparr> of
      Inl e \<Rightarrow> False
    | Inr m \<Rightarrow> num_topics m = 1 \<and> num_terms m = 1 \<and> self_var_lambda m 0 0 = - 2 \<and>
               \<not> strictly_positive (num_topics m) (num_terms m) (self_var_lambda m))"
  by (simp add: strictly_positive_def iteration_body_frame iteration_body_var_lambda
        iteration_body_var_phi update_phi_var_phi phi_unnorm_def doc_count_def init_mu_def
        lambda_cell_def cell_of_single
        construct_def vocabulary_size_def derive_doc2author_def inference_def Let_def
        inherited_num_topics_def bound_errors_def broadcastable_def
        word_bound_doc_errors_def doc_step_def doc_errors_def round_errors_def store_in_cell_def
        init_state_def blend_def rho_def powr_minus)

text \<open>
  C3, amended: provided every learning rate lies in \<open>(0, 1]\<close> (\<open>offset \<ge> 1\<close> and
  \<open>decay \<ge> 0\<close>), the entries of the priors \<open>alpha\<close> and \<open>eta\<close> are positive and the word counts are not
  negative: if the global matrices \<open>gamma\<close> and \<open>lambda\<close>, together with the local
  \<open>tilde_gamma\<close> and \<open>tilde_lambda\<close> they are blended with, are strictly positive before a
  per-document update step, they are strictly positive after the blend step, for every
  document; hence, starting from strictly positive initial values, \<open>gamma\<close> and \<open>lambda\<close>
  are strictly positive when inference returns, for any number of passes.
\<close>

theorem positivity_preserved:
  assumes "1 \<le> offset self" and "0 \<le> decay self"
      and "\<forall>x\<in>set (alpha self). 0 < x" and "\<forall>y\<in>set (eta self). 0 < y"
      and "\<forall>doc\<in>set docs. \<forall>(v, cnt)\<in>set doc. 0 \<le> cnt"
  shows "(\<forall>d doc s s'. doc \<in> set docs \<and> positive_state self s \<and>
              doc_step self de d doc s = Inr s' \<longrightarrow> positive_state self s') \<and>
         (\<forall>m. strictly_positive (num_authors self) (num_topics self) init_gamma \<and>
              strictly_positive (num_topics self) (num_terms self) init_lambda \<and>
              inference de init_gamma init_lambda self (Some docs) = Inr m \<longrightarrow>
              strictly_positive (num_authors m) (num_topics m) (self_var_gamma m) \<and>
              strictly_positive (num_topics m) (num_terms m) (self_var_lambda m))"
proof (intro conjI allI impI)
  fix d doc s s'
  assume h: "doc \<in> set docs \<and> positive_state self s \<and> doc_step self de d doc s = Inr s'"
  then have "\<forall>(v, cnt)\<in>set doc. 0 \<le> cnt" using assms(5) by blast
  with assms(1-4) show "positive_state self s'"
    using h by (blast intro: doc_step_positive)
next
  fix m
  assume h: "strictly_positive (num_authors self) (num_topics self) init_gamma \<and>
             strictly_positive (num_topics self) (num_terms self) init_lambda \<and>
             inference de init_gamma init_lambda self (Some docs) = Inr m"
  let ?m = "self\<lparr>num_docs := length docs\<rparr>"
  from h obtain s where
    run: "passes_loop ?m de docs 0 (passes ?m) (init_state ?m de init_gamma init_lambda) = Inr s"
    and m: "m = ?m\<lparr>self_var_lambda := var_lambda s, self_var_gamma := var_gamma s\<rparr>"
    by (auto simp: inference_def Let_def split: option.splits sum.splits)
  have p0: "positive_state ?m (init_state ?m de init_gamma init_lambda)"
    using h by (intro init_state_positive) simp_all
  have "positive_state ?m s"
    using assms by (intro passes_loop_positive [OF _ _ _ _ _ p0 run]) simp_all
  then show "strictly_positive (num_authors m) (num_topics m) (self_var_gamma m)"
    and "strictly_positive (num_topics m) (num_terms m) (self_var_lambda m)"
    unfolding m by (simp_all add: positive_state_def)
qed

theorem positivity_preserved_witness:
  "(\<exists>s'. doc_step
      \<lparr>num_terms = 1, num_topics = 1, num_authors = 1, num_docs = 1,
        author2doc = [(0, [0])], doc2author = [(0, [0])], alpha = [1], eta = [1],
        corpus = [[(0, 3)]], iterations = 1, passes = 1, threshold = 1/1000,
        minimum_probability = 1/100, decay = 1/2, offset = 1, eval_every = 1,
        self_var_gamma = (\<lambda>a k. 0), self_var_lambda = (\<lambda>k v. 0)\<rparr>
      (\<lambda>rows cols M i j. 0) 0 [(0, 3)]
      \<lparr>var_gamma = (\<lambda>a k. 1), var_lambda = (\<lambda>k v. 1), tilde_gamma = (\<lambda>a k. 1),
        tilde_lambda = (\<lambda>k v. 1), var_phi = (\<lambda>v k. 0), var_mu = (\<lambda>va. 0),
        Elogtheta = (\<lambda>a k. 0), Elogbeta = (\<lambda>k v. 0), expElogbeta = (\<lambda>k v. 1),
        t_step = 0, converged = 0\<rparr> = Inr s' \<and>
      positive_state
      \<lparr>num_terms = 1, num_topics = 1, num_authors = 1, num_docs = 1,
        author2doc = [(0, [0])], doc2author = [(0, [0])], alpha = [1], eta = [1],
        corpus = [[(0, 3)]], iterations = 1, passes = 1, threshold = 1/1000,
        minimum_probability = 1/100, decay = 1/2, offset = 1, eval_every = 1,
        self_var_gamma = (\<lambda>a k. 0), self_var_lambda = (\<lambda>k v. 0)\<rparr> s') \<and>
   (\<exists>m. inference (\<lambda>rows cols M i j. 0) (\<lambda>a k. 1) (\<lambda>k v. 1)
      \<lparr>num_terms = 1, num_topics = 1, num_authors = 1, num_docs = 1,
        author2doc = [(0, [0])], doc2author = [(0, [0])], alpha = [1], eta = [1],
        corpus = [[(0, 3)]], iterations = 1, passes = 1, threshold = 1/1000,
        minimum_probability = 1/100, decay = 1/2, offset = 1, eval_every = 1,
        self_var_gamma = (\<lambda>a k. 0), self_var_lambda = (\<lambda>k v. 0)\<rparr>
      (Some [[(0, 3)]]) = Inr m \<and>
      strictly_positive (num_authors m) (num_topics m) (self_var_gamma m) \<and>
      strictly_positive (num_topics m) (num_terms m) (self_var_lambda m))"
proof -
  let ?self = "\<lparr>num_terms = 1, num_topics = 1, num_authors = 1, num_docs = 1,
        author2doc = [(0, [0])], doc2author = [(0, [0])], alpha = [1], eta = [1],
        corpus = [[(0, 3)]], iterations = 1, passes = 1, threshold = 1/1000,
        minimum_probability = 1/100, decay = 1/2, offset = 1, eval_every = 1,
        self_var_gamma = (\<lambda>a k. 0), self_var_lambda = (\<lambda>k v. 0)\<rparr>"
  let ?s = "\<lparr>var_gamma = (\<lambda>a k. 1), var_lambda = (\<lambda>k v. 1), tilde_gamma = (\<lambda>a k. 1),
        tilde_lambda = (\<lambda>k v. 1), var_phi = (\<lambda>v k. 0), var_mu = (\<lambda>va. 0),
        Elogtheta = (\<lambda>a k. 0), Elogbeta = (\<lambda>k v. 0), expElogbeta = (\<lambda>k v. 1),
        t_step = 0, converged = 0\<rparr>"
  let ?de = "\<lambda>(rows::nat) (cols::nat) (M::matrix) (i::nat) (j::nat). 0::real"
  have hyps: "1 \<le> offset ?self" "0 \<le> decay ?self"
    "\<forall>x\<in>set (alpha ?self). 0 < x" "\<forall>y\<in>set (eta ?self). 0 < y"
    "\<forall>doc\<in>set [[(0::nat, 3::real)]]. \<forall>(v, cnt)\<in>set doc. 0 \<le> cnt"
    by simp_all
  note inst = positivity_preserved [OF hyps, of ?de "\<lambda>a k. 1" "\<lambda>k v. 1"]
  have "\<exists>s'. doc_step ?self ?de 0 [(0, 3)] ?s = Inr s'"
    by (simp add: doc_step_def doc_errors_def round_errors_def store_in_cell_def Let_def)
  then obtain s' where s': "doc_step ?self ?de 0 [(0, 3)] ?s = Inr s'" by blast
  have ps: "positive_state ?self ?s"
    by (simp add: positive_state_def strictly_positive_def)
  have step: "positive_state ?self s'"
    using inst s' ps by auto
  have "\<exists>m. inference ?de (\<lambda>a k. 1) (\<lambda>k v. 1) ?self (Some [[(0, 3)]]) = Inr m"
    by (simp add: inference_def Let_def bound_errors_def broadcastable_def
          word_bound_doc_errors_def doc_step_def doc_errors_def round_errors_def store_in_cell_def)
  then obtain m where m: "inference ?de (\<lambda>a k. 1) (\<lambda>k v. 1) ?self (Some [[(0, 3)]]) = Inr m"
    by blast
  have "strictly_positive (num_authors m) (num_topics m) (self_var_gamma m) \<and>
        strictly_positive (num_topics m) (num_terms m) (self_var_lambda m)"
    using inst m by (simp add: strictly_positive_def)
  then show ?thesis using s' step m by blast
qed

end
